theory Spec2Isabelle
  imports Main
begin

section \<open>Thrown values, settled promises and the log of external calls\<close>

text \<open>
  A JavaScript \<^verbatim>\<open>throw\<close> (or a rejected promise) carries any value. The handlers only
  ask \<^verbatim>\<open>error instanceof Error\<close> and then read \<^verbatim>\<open>error.message\<close>; the proxy of the
  single-step variant also uses \<^verbatim>\<open>String(error)\<close> and sets \<^verbatim>\<open>error.name\<close>. So a thrown
  value is either an \<^verbatim>\<open>Error\<close> object with its name and message, or some other value,
  kept as its string rendering.
\<close>

datatype thrown = ErrorObj (err_name: string) (err_message: string) | NonError (rendering: string)

text \<open>A settled promise: \<open>Inl\<close> is a rejection, \<open>Inr\<close> a fulfilment.\<close>

type_synonym 'a promise = "thrown + 'a"

text \<open>
  Calls that leave the component: wallet and connector calls, the console, and the
  onboarding SDK. Wallet sessions are named by their handle.
\<close>

datatype Call =
    GetChainId nat
  | SwitchChain nat nat
  | SwitchChainAsync nat
  | RefetchWalletClient
  | ConsoleWarn
  | NewOnboardingClient nat
  | DeploySafe
  | SetPermissions string string
  | TransferAssetFromCallerToSafe string string string
  | TransferAssetFromSafeToSafeOwner string string string

fun is_wallet_switch :: "Call \<Rightarrow> bool" where
  "is_wallet_switch (SwitchChain _ _) = True"
| "is_wallet_switch (SwitchChainAsync _) = True"
| "is_wallet_switch RefetchWalletClient = True"
| "is_wallet_switch _ = False"

fun is_sdk_call :: "Call \<Rightarrow> bool" where
  "is_sdk_call (NewOnboardingClient _) = True"
| "is_sdk_call DeploySafe = True"
| "is_sdk_call (SetPermissions _ _) = True"
| "is_sdk_call (TransferAssetFromCallerToSafe _ _ _) = True"
| "is_sdk_call (TransferAssetFromSafeToSafeOwner _ _ _) = True"
| "is_sdk_call _ = False"

text \<open>
  An asynchronous computation run to its end: the calls it made, in order, and how it
  settled. \<open>await\<close> sequences two of them; a rejection skips the continuation, as an
  exception thrown by \<^verbatim>\<open>await\<close> does.
\<close>

type_synonym 'a io = "Call list \<times> 'a promise"

definition await :: "'a io \<Rightarrow> ('a \<Rightarrow> 'b io) \<Rightarrow> 'b io" where
  "await m k =
     (case m of
        (cs, Inl e) \<Rightarrow> (cs, Inl e)
      | (cs, Inr x) \<Rightarrow> (case k x of (cs', r) \<Rightarrow> (cs @ cs', r)))"

definition resolved :: "'a \<Rightarrow> 'a io" where
  "resolved x = ([], Inr x)"

definition throw_Error :: "string \<Rightarrow> 'a io" where
  "throw_Error msg = ([], Inl (ErrorObj ''Error'' msg))"

section \<open>Wallet sessions and the values of the hooks\<close>

text \<open>\<^verbatim>\<open>base.id\<close> of viem/chains, the id of the Base network.\<close>

definition base_id :: nat where
  "base_id = 8453"

text \<open>
  A wallet client as \<^verbatim>\<open>ensureWalletOnBase\<close> sees it: \<open>chain\<close> is \<^verbatim>\<open>chain?.id\<close>,
  \<open>account\<close> the active account, and the two optional methods are \<open>None\<close> when
  \<^verbatim>\<open>typeof ... === 'function'\<close> is false. A method is given by how its call settles:
  \<open>getChainId\<close> by the round of resolution that calls it (0 before any switch, 1 after),
  \<open>switchChain\<close> by the chain id asked for.
\<close>

record WalletClient =
  handle :: nat
  chain :: "nat option"
  account :: "string option"
  getChainId :: "(nat \<Rightarrow> nat promise) option"
  switchChain :: "(nat \<Rightarrow> unit promise) option"

datatype PublicClient = PublicClient nat

text \<open>
  What the wagmi hooks return in the render whose handlers run: \<^verbatim>\<open>useAccount\<close>,
  \<^verbatim>\<open>useChainId\<close>, \<^verbatim>\<open>usePublicClient\<close>, \<^verbatim>\<open>useWalletClient\<close> (its data and its
  \<^verbatim>\<open>refetch\<close>, given by the \<^verbatim>\<open>data\<close> of what it resolves to) and \<^verbatim>\<open>useSwitchChain\<close>.
\<close>

record Hooks =
  address :: "string option"
  isConnected :: bool
  chainId :: nat
  publicClient :: "PublicClient option"
  walletClient :: "WalletClient option"
  switchChainAsync :: "(nat \<Rightarrow> unit promise) option"
  refetchWalletClient :: "WalletClient option promise option"

section \<open>The chain-readiness negotiator\<close>

text \<open>
  \<^verbatim>\<open>resolveChainId\<close>: \<^verbatim>\<open>chain?.id ?? (typeof getChainId === 'function' ? await getChainId() : undefined)\<close>.
\<close>

definition resolveChainId :: "WalletClient \<Rightarrow> nat \<Rightarrow> nat option io" where
  "resolveChainId wc round =
     (case chain wc of
        Some c \<Rightarrow> resolved (Some c)
      | None \<Rightarrow>
          (case getChainId wc of
             Some f \<Rightarrow> ([GetChainId (handle wc)], map_sum id Some (f round))
           | None \<Rightarrow> resolved None))"

definition ensureWalletOnBase :: "Hooks \<Rightarrow> WalletClient io" where
  "ensureWalletOnBase h =
     (case walletClient h of
        None \<Rightarrow> throw_Error ''Wallet client not available. Connect a wallet first.''
      | Some wc \<Rightarrow>
          await (resolveChainId wc 0) (\<lambda>currentChainId.
          await
            (if currentChainId \<noteq> Some base_id then
               await
                 (case switchChain wc of
                    Some f \<Rightarrow>
                      (case f base_id of
                         Inr _ \<Rightarrow> ([SwitchChain (handle wc) base_id], Inr True)
                       | Inl _ \<Rightarrow> ([SwitchChain (handle wc) base_id, ConsoleWarn], Inr False))
                  | None \<Rightarrow> resolved False) (\<lambda>switched0.
               await
                 (if \<not> switched0 then
                    (case switchChainAsync h of
                       Some g \<Rightarrow> ([SwitchChainAsync base_id], map_sum id (\<lambda>_. True) (g base_id))
                     | None \<Rightarrow> resolved switched0)
                  else resolved switched0) (\<lambda>switched.
               await
                 (if switched then
                    (case refetchWalletClient h of
                       Some refreshed \<Rightarrow>
                         ([RefetchWalletClient],
                          map_sum id (\<lambda>d. case d of Some wc' \<Rightarrow> wc' | None \<Rightarrow> wc) refreshed)
                     | None \<Rightarrow> resolved wc)
                  else resolved wc) (\<lambda>activeWalletClient.
               await (resolveChainId activeWalletClient 1) (\<lambda>currentChainId'.
               if currentChainId' \<noteq> Some base_id then
                 throw_Error ''Please switch your wallet to the Base network and try again.''
               else resolved activeWalletClient))))
             else resolved wc) (\<lambda>activeWalletClient.
          (case account activeWalletClient of
             None \<Rightarrow> throw_Error ''Wallet client must have an active account.''
           | Some _ \<Rightarrow> resolved activeWalletClient))))"

section \<open>The state of the multi-step component\<close>

datatype StepPhase = idle | running | success | error

datatype Step = deploy | permissions | transfer | transferBack

text \<open>
  The result records of the SDK, with the fields the component reads or renders.
\<close>

record DeploySafeResult =
  safeAddress :: string
  multiSendCallOnly :: string
  transactionHash :: string

datatype SetPermissionsResult =
  SetPermissionsResult (rolesAddress: string) (predictedProxyAddress: string)
    (permissionsTransactionHash: string)

datatype TransferAssetResult = TransferAssetResult (transferTransactionHash: string)

text \<open>The eighteen \<^verbatim>\<open>useState\<close> slots of \<^verbatim>\<open>App\<close>, with their initial values.\<close>

record AppState =
  deployPhase :: StepPhase
  permissionsPhase :: StepPhase
  transferPhase :: StepPhase
  transferBackPhase :: StepPhase
  deployError :: "string option"
  permissionsError :: "string option"
  transferError :: "string option"
  transferBackError :: "string option"
  safeResult :: "DeploySafeResult option"
  permissionsResult :: "SetPermissionsResult option"
  transferResult :: "TransferAssetResult option"
  transferBackResult :: "TransferAssetResult option"
  transferBackSafeAddress :: string
  transferAddress :: string
  transferAmount :: string
  transferBackAddress :: string
  transferBackAmount :: string
  activeStep :: "Step option"

definition initialState :: AppState where
  "initialState =
     \<lparr> deployPhase = idle, permissionsPhase = idle, transferPhase = idle,
       transferBackPhase = idle,
       deployError = None, permissionsError = None, transferError = None,
       transferBackError = None,
       safeResult = None, permissionsResult = None, transferResult = None,
       transferBackResult = None,
       transferBackSafeAddress = [], transferAddress = [], transferAmount = [],
       transferBackAddress = [], transferBackAmount = [],
       activeStep = None \<rparr>"

text \<open>
  The onboarding SDK is an external collaborator: a client is built from a wallet
  session and a network client, and each operation settles as the SDK decides.
\<close>

record Sdk =
  newOnboardingClient :: "WalletClient \<Rightarrow> PublicClient \<Rightarrow> thrown + unit"
  deploySafe :: "WalletClient \<Rightarrow> DeploySafeResult promise"
  setPermissions :: "WalletClient \<Rightarrow> string \<Rightarrow> string \<Rightarrow> SetPermissionsResult promise"
  transferAssetFromCallerToSafe ::
    "WalletClient \<Rightarrow> string \<Rightarrow> string \<Rightarrow> string \<Rightarrow> TransferAssetResult promise"
  transferAssetFromSafeToSafeOwner ::
    "WalletClient \<Rightarrow> string \<Rightarrow> string \<Rightarrow> string \<Rightarrow> TransferAssetResult promise"

definition construct :: "Sdk \<Rightarrow> WalletClient \<Rightarrow> PublicClient \<Rightarrow> unit io" where
  "construct sdk wc pc = ([NewOnboardingClient (handle wc)], newOnboardingClient sdk wc pc)"

text \<open>
  \<^verbatim>\<open>error instanceof Error ? error.message : fallback\<close>, the message every
  \<^verbatim>\<open>catch\<close> block of the handlers stores.
\<close>

definition messageOr :: "string \<Rightarrow> thrown \<Rightarrow> string" where
  "messageOr fallback e = (case e of ErrorObj _ m \<Rightarrow> m | NonError _ \<Rightarrow> fallback)"

section \<open>Strings of the form inputs\<close>

text \<open>
  Strings are lists of 8-bit characters. The white space and line terminators that
  \<^verbatim>\<open>String.prototype.trim\<close> removes are, in that range, U+0009 to U+000D, U+0020 and
  U+00A0.
\<close>

definition isWhiteSpace :: "char \<Rightarrow> bool" where
  "isWhiteSpace c = (c \<in> set [CHR 0x09, CHR 0x0A, CHR 0x0B, CHR 0x0C, CHR 0x0D, CHR 0x20, CHR 0xA0])"

definition trim :: "string \<Rightarrow> string" where
  "trim s = rev (dropWhile isWhiteSpace (rev (dropWhile isWhiteSpace s)))"

definition startsWith :: "string \<Rightarrow> string \<Rightarrow> bool" where
  "startsWith s p = (take (length p) s = p)"

text \<open>
  The address test the two transfer handlers write out:
  \<^verbatim>\<open>!a || !a.startsWith('0x') || a.length !== 42\<close>.
\<close>

definition malformedAddress :: "string \<Rightarrow> bool" where
  "malformedAddress a = (a = [] \<or> \<not> startsWith a ''0x'' \<or> length a \<noteq> 42)"

section \<open>The four handlers\<close>

text \<open>
  A handler runs in three parts. Its start is the synchronous code before \<^verbatim>\<open>try\<close>:
  the guards, each of which stores an error and returns, and the setters that enter
  \<^verbatim>\<open>running\<close>. It either has \<open>Stopped\<close> at a guard or has \<open>Entered\<close> the
  \<^verbatim>\<open>try\<close> block with the values its closure holds. The body of \<^verbatim>\<open>try\<close> awaits the
  negotiator and the SDK and touches no state. The finish is what runs after the last
  \<^verbatim>\<open>await\<close>: the setters of the success path or of \<^verbatim>\<open>catch\<close>, then \<^verbatim>\<open>finally\<close>.
\<close>

datatype 'c started = Stopped AppState | Entered AppState 'c

definition handleDeploySafe_start :: "Hooks \<Rightarrow> AppState \<Rightarrow> PublicClient started" where
  "handleDeploySafe_start h st =
     (case publicClient h of
        None \<Rightarrow>
          Stopped (st\<lparr>deployError := Some ''Public client not available.'', deployPhase := error\<rparr>)
      | Some pc \<Rightarrow>
          Entered
            (st\<lparr>activeStep := Some deploy,
                deployPhase := running,
                deployError := None,
                permissionsPhase := idle,
                permissionsError := None,
                permissionsResult := None,
                transferPhase := idle,
                transferError := None,
                transferResult := None,
                transferBackPhase := idle,
                transferBackError := None,
                transferBackResult := None,
                safeResult := None\<rparr>)
            pc)"

definition handleDeploySafe_try :: "Hooks \<Rightarrow> Sdk \<Rightarrow> PublicClient \<Rightarrow> DeploySafeResult io" where
  "handleDeploySafe_try h sdk pc =
     await (ensureWalletOnBase h) (\<lambda>activeWalletClient.
     await (construct sdk activeWalletClient pc) (\<lambda>_.
     ([DeploySafe], deploySafe sdk activeWalletClient)))"

definition handleDeploySafe_finish :: "DeploySafeResult promise \<Rightarrow> AppState \<Rightarrow> AppState" where
  "handleDeploySafe_finish r st =
     (case r of
        Inr result \<Rightarrow> st\<lparr>safeResult := Some result, deployPhase := success, activeStep := None\<rparr>
      | Inl e \<Rightarrow>
          st\<lparr>deployError := Some (messageOr ''Failed to deploy Safe.'' e),
             deployPhase := error, activeStep := None\<rparr>)"

definition handleDeploySafe :: "Hooks \<Rightarrow> Sdk \<Rightarrow> AppState \<Rightarrow> Call list \<times> AppState" where
  "handleDeploySafe h sdk st =
     (case handleDeploySafe_start h st of
        Stopped st' \<Rightarrow> ([], st')
      | Entered st' pc \<Rightarrow>
          (case handleDeploySafe_try h sdk pc of (cs, r) \<Rightarrow> (cs, handleDeploySafe_finish r st')))"

definition handleSetPermissions_start ::
  "Hooks \<Rightarrow> AppState \<Rightarrow> (PublicClient \<times> DeploySafeResult) started" where
  "handleSetPermissions_start h st =
     (case publicClient h of
        None \<Rightarrow>
          Stopped (st\<lparr>permissionsError := Some ''Public client not available.'',
                      permissionsPhase := error\<rparr>)
      | Some pc \<Rightarrow>
          (case safeResult st of
             None \<Rightarrow>
               Stopped (st\<lparr>permissionsError := Some ''Deploy a Safe first.'',
                           permissionsPhase := error\<rparr>)
           | Some safe \<Rightarrow>
               if safeAddress safe = [] then
                 Stopped (st\<lparr>permissionsError := Some ''Deploy a Safe first.'',
                             permissionsPhase := error\<rparr>)
               else
                 Entered
                   (st\<lparr>activeStep := Some permissions,
                       permissionsPhase := running,
                       permissionsError := None,
                       transferPhase := idle,
                       transferError := None,
                       transferResult := None,
                       transferBackPhase := idle,
                       transferBackError := None,
                       transferBackResult := None\<rparr>)
                   (pc, safe)))"

definition handleSetPermissions_try ::
  "Hooks \<Rightarrow> Sdk \<Rightarrow> PublicClient \<times> DeploySafeResult \<Rightarrow> SetPermissionsResult io" where
  "handleSetPermissions_try h sdk c =
     (case c of (pc, safe) \<Rightarrow>
        await (ensureWalletOnBase h) (\<lambda>activeWalletClient.
        await (construct sdk activeWalletClient pc) (\<lambda>_.
        ([SetPermissions (safeAddress safe) (multiSendCallOnly safe)],
         setPermissions sdk activeWalletClient (safeAddress safe) (multiSendCallOnly safe)))))"

definition handleSetPermissions_finish ::
  "SetPermissionsResult promise \<Rightarrow> AppState \<Rightarrow> AppState" where
  "handleSetPermissions_finish r st =
     (case r of
        Inr result \<Rightarrow>
          st\<lparr>permissionsResult := Some result, permissionsPhase := success, activeStep := None\<rparr>
      | Inl e \<Rightarrow>
          st\<lparr>permissionsError := Some (messageOr ''Failed to set permissions.'' e),
             permissionsPhase := error, activeStep := None\<rparr>)"

definition handleSetPermissions :: "Hooks \<Rightarrow> Sdk \<Rightarrow> AppState \<Rightarrow> Call list \<times> AppState" where
  "handleSetPermissions h sdk st =
     (case handleSetPermissions_start h st of
        Stopped st' \<Rightarrow> ([], st')
      | Entered st' c \<Rightarrow>
          (case handleSetPermissions_try h sdk c of
             (cs, r) \<Rightarrow> (cs, handleSetPermissions_finish r st')))"

definition handleTransfer_start ::
  "Hooks \<Rightarrow> AppState \<Rightarrow> (PublicClient \<times> string \<times> string \<times> string) started" where
  "handleTransfer_start h st =
     (case publicClient h of
        None \<Rightarrow>
          Stopped (st\<lparr>transferError := Some ''Public client not available.'',
                      transferPhase := error\<rparr>)
      | Some pc \<Rightarrow>
          (case safeResult st of
             None \<Rightarrow>
               Stopped (st\<lparr>transferError := Some ''Deploy a Safe first.'', transferPhase := error\<rparr>)
           | Some safe \<Rightarrow>
               if safeAddress safe = [] then
                 Stopped (st\<lparr>transferError := Some ''Deploy a Safe first.'',
                             transferPhase := error\<rparr>)
               else
                 (let tokenAddress = trim (transferAddress st);
                      amount = trim (transferAmount st)
                  in if malformedAddress tokenAddress then
                       Stopped (st\<lparr>transferError := Some ''Enter a valid token address.'',
                                   transferPhase := error\<rparr>)
                     else if amount = [] then
                       Stopped (st\<lparr>transferError := Some ''Enter an amount (integer or hex string).'',
                                   transferPhase := error\<rparr>)
                     else
                       Entered
                         (st\<lparr>activeStep := Some transfer,
                             transferPhase := running,
                             transferError := None\<rparr>)
                         (pc, safeAddress safe, tokenAddress, amount))))"

definition handleTransfer_try ::
  "Hooks \<Rightarrow> Sdk \<Rightarrow> PublicClient \<times> string \<times> string \<times> string \<Rightarrow> TransferAssetResult io" where
  "handleTransfer_try h sdk c =
     (case c of (pc, safe, tokenAddress, amount) \<Rightarrow>
        await (ensureWalletOnBase h) (\<lambda>activeWalletClient.
        await (construct sdk activeWalletClient pc) (\<lambda>_.
        ([TransferAssetFromCallerToSafe safe tokenAddress amount],
         transferAssetFromCallerToSafe sdk activeWalletClient safe tokenAddress amount))))"

definition handleTransfer_finish :: "TransferAssetResult promise \<Rightarrow> AppState \<Rightarrow> AppState" where
  "handleTransfer_finish r st =
     (case r of
        Inr result \<Rightarrow>
          st\<lparr>transferResult := Some result, transferPhase := success, activeStep := None\<rparr>
      | Inl e \<Rightarrow>
          st\<lparr>transferError := Some (messageOr ''Token transfer failed.'' e),
             transferPhase := error, activeStep := None\<rparr>)"

definition handleTransfer :: "Hooks \<Rightarrow> Sdk \<Rightarrow> AppState \<Rightarrow> Call list \<times> AppState" where
  "handleTransfer h sdk st =
     (case handleTransfer_start h st of
        Stopped st' \<Rightarrow> ([], st')
      | Entered st' c \<Rightarrow>
          (case handleTransfer_try h sdk c of (cs, r) \<Rightarrow> (cs, handleTransfer_finish r st')))"

definition handleTransferBack_start ::
  "Hooks \<Rightarrow> AppState \<Rightarrow> (PublicClient \<times> string \<times> string \<times> string) started" where
  "handleTransferBack_start h st =
     (case publicClient h of
        None \<Rightarrow>
          Stopped (st\<lparr>transferBackError := Some ''Public client not available.'',
                      transferBackPhase := error\<rparr>)
      | Some pc \<Rightarrow>
          (let safeAddressInput = trim (transferBackSafeAddress st);
               tokenAddress = trim (transferBackAddress st);
               amount = trim (transferBackAmount st)
           in if malformedAddress safeAddressInput then
                Stopped (st\<lparr>transferBackError := Some ''Enter a valid Safe address.'',
                            transferBackPhase := error\<rparr>)
              else if malformedAddress tokenAddress then
                Stopped (st\<lparr>transferBackError := Some ''Enter a valid token address.'',
                            transferBackPhase := error\<rparr>)
              else if amount = [] then
                Stopped (st\<lparr>transferBackError := Some ''Enter an amount (integer or hex string).'',
                            transferBackPhase := error\<rparr>)
              else
                Entered
                  (st\<lparr>activeStep := Some transferBack,
                      transferBackPhase := running,
                      transferBackError := None\<rparr>)
                  (pc, safeAddressInput, tokenAddress, amount)))"

definition handleTransferBack_try ::
  "Hooks \<Rightarrow> Sdk \<Rightarrow> PublicClient \<times> string \<times> string \<times> string \<Rightarrow> TransferAssetResult io" where
  "handleTransferBack_try h sdk c =
     (case c of (pc, safe, tokenAddress, amount) \<Rightarrow>
        await (ensureWalletOnBase h) (\<lambda>activeWalletClient.
        await (construct sdk activeWalletClient pc) (\<lambda>_.
        ([TransferAssetFromSafeToSafeOwner safe tokenAddress amount],
         transferAssetFromSafeToSafeOwner sdk activeWalletClient safe tokenAddress amount))))"

definition handleTransferBack_finish :: "TransferAssetResult promise \<Rightarrow> AppState \<Rightarrow> AppState" where
  "handleTransferBack_finish r st =
     (case r of
        Inr result \<Rightarrow>
          st\<lparr>transferBackResult := Some result, transferBackPhase := success, activeStep := None\<rparr>
      | Inl e \<Rightarrow>
          st\<lparr>transferBackError := Some (messageOr ''Token transfer failed.'' e),
             transferBackPhase := error, activeStep := None\<rparr>)"

definition handleTransferBack :: "Hooks \<Rightarrow> Sdk \<Rightarrow> AppState \<Rightarrow> Call list \<times> AppState" where
  "handleTransferBack h sdk st =
     (case handleTransferBack_start h st of
        Stopped st' \<Rightarrow> ([], st')
      | Entered st' c \<Rightarrow>
          (case handleTransferBack_try h sdk c of
             (cs, r) \<Rightarrow> (cs, handleTransferBack_finish r st')))"

section \<open>The four triggers\<close>

text \<open>
  \<^verbatim>\<open>canInteract\<close> and the \<^verbatim>\<open>disabled\<close> attribute of the four buttons, as the JSX
  writes them.
\<close>

definition canInteract :: "Hooks \<Rightarrow> bool" where
  "canInteract h = (isConnected h \<and> chainId h = base_id \<and> publicClient h \<noteq> None)"

fun disabled :: "Hooks \<Rightarrow> AppState \<Rightarrow> Step \<Rightarrow> bool" where
  "disabled h st deploy = (\<not> canInteract h \<or> activeStep st = Some deploy)"
| "disabled h st permissions =
     (\<not> canInteract h \<or> safeResult st = None \<or> activeStep st = Some permissions)"
| "disabled h st transfer =
     (\<not> canInteract h \<or> safeResult st = None \<or> activeStep st = Some transfer)"
| "disabled h st transferBack = (\<not> canInteract h \<or> activeStep st = Some transferBack)"

text \<open>The state slots of a step, and the \<^verbatim>\<open>onClick\<close> of its button.\<close>

fun phaseOf :: "AppState \<Rightarrow> Step \<Rightarrow> StepPhase" where
  "phaseOf st deploy = deployPhase st"
| "phaseOf st permissions = permissionsPhase st"
| "phaseOf st transfer = transferPhase st"
| "phaseOf st transferBack = transferBackPhase st"

fun errorOf :: "AppState \<Rightarrow> Step \<Rightarrow> string option" where
  "errorOf st deploy = deployError st"
| "errorOf st permissions = permissionsError st"
| "errorOf st transfer = transferError st"
| "errorOf st transferBack = transferBackError st"

fun onClick :: "Step \<Rightarrow> Hooks \<Rightarrow> Sdk \<Rightarrow> AppState \<Rightarrow> Call list \<times> AppState" where
  "onClick deploy = handleDeploySafe"
| "onClick permissions = handleSetPermissions"
| "onClick transfer = handleTransfer"
| "onClick transferBack = handleTransferBack"

text \<open>The start of a handler, without the values its closure keeps.\<close>

definition stateOf :: "'c started \<Rightarrow> AppState" where
  "stateOf s = (case s of Stopped st \<Rightarrow> st | Entered st _ \<Rightarrow> st)"

definition entered :: "'c started \<Rightarrow> bool" where
  "entered s = (case s of Stopped _ \<Rightarrow> False | Entered _ _ \<Rightarrow> True)"

fun onClick_start :: "Step \<Rightarrow> Hooks \<Rightarrow> AppState \<Rightarrow> AppState \<times> bool" where
  "onClick_start deploy h st =
     (stateOf (handleDeploySafe_start h st), entered (handleDeploySafe_start h st))"
| "onClick_start permissions h st =
     (stateOf (handleSetPermissions_start h st), entered (handleSetPermissions_start h st))"
| "onClick_start transfer h st =
     (stateOf (handleTransfer_start h st), entered (handleTransfer_start h st))"
| "onClick_start transferBack h st =
     (stateOf (handleTransferBack_start h st), entered (handleTransferBack_start h st))"

text \<open>The fallback of each handler's \<^verbatim>\<open>catch\<close> for a thrown value that is no \<^verbatim>\<open>Error\<close>.\<close>

fun fallbackMessage :: "Step \<Rightarrow> string" where
  "fallbackMessage deploy = ''Failed to deploy Safe.''"
| "fallbackMessage permissions = ''Failed to set permissions.''"
| "fallbackMessage transfer = ''Token transfer failed.''"
| "fallbackMessage transferBack = ''Token transfer failed.''"

section \<open>The component as an event loop\<close>

text \<open>
  The component between two events: its state and the handlers that have entered
  \<^verbatim>\<open>try\<close> and not finished yet. An event is a click on the button of a step in a render
  with given hook values (ignored by the browser when the button is disabled), the last
  \<^verbatim>\<open>await\<close> of a handler in flight settling, or an edit of a form input. A click runs
  the start of the handler, a settlement its finish; the setters of one event are
  applied together.
\<close>

record Ui =
  appState :: AppState
  inFlight :: "Step list"

datatype Event =
    Click Hooks Step
  | SettleDeploy "DeploySafeResult promise"
  | SettlePermissions "SetPermissionsResult promise"
  | SettleTransfer "TransferAssetResult promise"
  | SettleTransferBack "TransferAssetResult promise"
  | ChangeTransferAddress string
  | ChangeTransferAmount string
  | ChangeTransferBackSafeAddress string
  | ChangeTransferBackAddress string
  | ChangeTransferBackAmount string

definition settle :: "Step \<Rightarrow> (AppState \<Rightarrow> AppState) \<Rightarrow> Ui \<Rightarrow> Ui" where
  "settle k finish ui =
     (if k \<in> set (inFlight ui) then
        \<lparr> appState = finish (appState ui), inFlight = remove1 k (inFlight ui) \<rparr>
      else ui)"

fun fire :: "Ui \<Rightarrow> Event \<Rightarrow> Ui" where
  "fire ui (Click h k) =
     (if disabled h (appState ui) k then ui
      else (case onClick_start k h (appState ui) of
              (st', True) \<Rightarrow> \<lparr> appState = st', inFlight = k # inFlight ui \<rparr>
            | (st', False) \<Rightarrow> ui\<lparr>appState := st'\<rparr>))"
| "fire ui (SettleDeploy r) = settle deploy (handleDeploySafe_finish r) ui"
| "fire ui (SettlePermissions r) = settle permissions (handleSetPermissions_finish r) ui"
| "fire ui (SettleTransfer r) = settle transfer (handleTransfer_finish r) ui"
| "fire ui (SettleTransferBack r) = settle transferBack (handleTransferBack_finish r) ui"
| "fire ui (ChangeTransferAddress v) = ui\<lparr>appState := (appState ui)\<lparr>transferAddress := v\<rparr>\<rparr>"
| "fire ui (ChangeTransferAmount v) = ui\<lparr>appState := (appState ui)\<lparr>transferAmount := v\<rparr>\<rparr>"
| "fire ui (ChangeTransferBackSafeAddress v) =
     ui\<lparr>appState := (appState ui)\<lparr>transferBackSafeAddress := v\<rparr>\<rparr>"
| "fire ui (ChangeTransferBackAddress v) =
     ui\<lparr>appState := (appState ui)\<lparr>transferBackAddress := v\<rparr>\<rparr>"
| "fire ui (ChangeTransferBackAmount v) =
     ui\<lparr>appState := (appState ui)\<lparr>transferBackAmount := v\<rparr>\<rparr>"

definition run :: "Event list \<Rightarrow> Ui" where
  "run evs = foldl fire \<lparr> appState = initialState, inFlight = [] \<rparr> evs"

section \<open>The single-step variant: the proxy around the network client\<close>

text \<open>
  \<^verbatim>\<open>message.includes(sub)\<close>: some suffix of the message starts with \<open>sub\<close>.
\<close>

fun str_includes :: "string \<Rightarrow> string \<Rightarrow> bool" where
  "str_includes [] sub = (sub = [])"
| "str_includes (c # cs) sub = (startsWith (c # cs) sub \<or> str_includes cs sub)"

text \<open>
  \<^verbatim>\<open>error instanceof Error ? error.message : String(error)\<close>, the \<^verbatim>\<open>message\<close> of the
  \<^verbatim>\<open>catch\<close> block in the proxy.
\<close>

definition messageOf :: "thrown \<Rightarrow> string" where
  "messageOf e = (case e of ErrorObj _ m \<Rightarrow> m | NonError s \<Rightarrow> s)"

text \<open>
  The function the proxy's \<^verbatim>\<open>get\<close> trap returns for \<^verbatim>\<open>readContract\<close>: it awaits the
  target's \<^verbatim>\<open>readContract\<close> on the same arguments and rewrites one kind of
  rejection.
\<close>

definition proxy_readContract :: "('a \<Rightarrow> 'v promise) \<Rightarrow> 'a \<Rightarrow> 'v promise" where
  "proxy_readContract target_readContract args =
     (case target_readContract args of
        Inr v \<Rightarrow> Inr v
      | Inl e \<Rightarrow>
          (let message = messageOf e
           in if str_includes message ''returned no data'' then
                Inl (ErrorObj ''ContractFunctionZeroDataError''
                       (''ContractFunctionZeroDataError: '' @ message))
              else Inl e))"

section \<open>The process-env polyfill\<close>

text \<open>
  \<^verbatim>\<open>Record<string, string | undefined>\<close>: a key is absent (\<open>None\<close>), or present with
  the value \<^verbatim>\<open>undefined\<close> (\<open>Some None\<close>) or with a string. Reading a property gives
  \<^verbatim>\<open>undefined\<close> in the first two cases.
\<close>

type_synonym EnvRecord = "string \<rightharpoonup> string option"

definition readProperty :: "EnvRecord \<Rightarrow> string \<Rightarrow> string option" where
  "readProperty e k = (case e k of None \<Rightarrow> None | Some v \<Rightarrow> v)"

record Process =
  env :: EnvRecord

record ImportMetaEnv =
  VITE_WALLETCONNECT_PROJECT_ID :: "string option"
  VITE_SAFE_RPC_URL :: "string option"
  VITE_SAFE_PRIVATE_KEY :: "string option"

text \<open>\<^verbatim>\<open>a ?? b\<close> with a right operand that is never nullish.\<close>

definition orElse :: "'a option \<Rightarrow> 'a \<Rightarrow> 'a" where
  "orElse a b = (case a of Some v \<Rightarrow> v | None \<Rightarrow> b)"

text \<open>
  The module takes \<^verbatim>\<open>globalThis.process\<close> (or a fresh object with an empty
  \<^verbatim>\<open>env\<close>), replaces its \<^verbatim>\<open>env\<close> by the spread of the old one followed by the two
  keys, and stores it back. The result is \<^verbatim>\<open>globalThis.process\<close> afterwards.
\<close>

definition process_env_polyfill :: "ImportMetaEnv \<Rightarrow> Process option \<Rightarrow> Process" where
  "process_env_polyfill meta globalProcess =
     (let existingProcess = orElse globalProcess \<lparr> env = Map.empty \<rparr>
      in existingProcess
           \<lparr> env :=
               (env existingProcess)
                 (''RPC_URL'' \<mapsto>
                    Some (orElse (readProperty (env existingProcess) ''RPC_URL'')
                            (orElse (VITE_SAFE_RPC_URL meta) [])),
                  ''PRIVATE_KEY'' \<mapsto>
                    Some (orElse (readProperty (env existingProcess) ''PRIVATE_KEY'')
                            (orElse (VITE_SAFE_PRIVATE_KEY meta) []))) \<rparr>)"

section \<open>Sample sessions\<close>

text \<open>
  Concrete sessions on which the theorems below are exercised. \<open>readyWallet\<close> has no
  \<^verbatim>\<open>chain\<close> field and answers \<^verbatim>\<open>getChainId\<close> with Base; \<open>mainnetWallet\<close> is bound
  to chain 1 and its own \<^verbatim>\<open>switchChain\<close> rejects.
\<close>

definition sampleAccount :: string where
  "sampleAccount = ''0x1111111111111111111111111111111111111111''"

definition sampleToken :: string where
  "sampleToken = ''0x2222222222222222222222222222222222222222''"

definition readyWallet :: WalletClient where
  "readyWallet =
     \<lparr> handle = 1, chain = None, account = Some sampleAccount,
       getChainId = Some (\<lambda>_. Inr 8453), switchChain = None \<rparr>"

definition readyHooks :: Hooks where
  "readyHooks =
     \<lparr> address = Some sampleAccount, isConnected = True, chainId = 8453,
       publicClient = Some (PublicClient 0), walletClient = Some readyWallet,
       switchChainAsync = Some (\<lambda>_. Inr ()), refetchWalletClient = Some (Inr None) \<rparr>"

definition mainnetWallet :: WalletClient where
  "mainnetWallet =
     \<lparr> handle = 2, chain = Some 1, account = Some sampleAccount,
       getChainId = None,
       switchChain = Some (\<lambda>_. Inl (ErrorObj ''Error'' ''Unsupported chain.'')) \<rparr>"

definition sampleSafe :: DeploySafeResult where
  "sampleSafe =
     \<lparr> safeAddress = ''0x3333333333333333333333333333333333333333'',
       multiSendCallOnly = ''0x4444444444444444444444444444444444444444'',
       transactionHash = ''0xaa'' \<rparr>"

definition sampleRoles :: SetPermissionsResult where
  "sampleRoles = SetPermissionsResult ''0x55'' ''0x66'' ''0xbb''"

definition sampleSdk :: Sdk where
  "sampleSdk =
     \<lparr> newOnboardingClient = (\<lambda>_ _. Inr ()),
       deploySafe = (\<lambda>_. Inr sampleSafe),
       setPermissions = (\<lambda>_ _ _. Inr sampleRoles),
       transferAssetFromCallerToSafe = (\<lambda>_ _ _ _. Inr (TransferAssetResult ''0xcc'')),
       transferAssetFromSafeToSafeOwner = (\<lambda>_ _ _ _. Inr (TransferAssetResult ''0xdd'')) \<rparr>"

definition failingSdk :: Sdk where
  "failingSdk =
     \<lparr> newOnboardingClient = (\<lambda>_ _. Inr ()),
       deploySafe = (\<lambda>_. Inl (ErrorObj ''Error'' ''execution reverted'')),
       setPermissions = (\<lambda>_ _ _. Inl (ErrorObj ''Error'' ''execution reverted'')),
       transferAssetFromCallerToSafe = (\<lambda>_ _ _ _. Inl (NonError ''rejected'')),
       transferAssetFromSafeToSafeOwner = (\<lambda>_ _ _ _. Inl (NonError ''rejected'')) \<rparr>"

text \<open>
  \<open>rejectingHooks\<close>: the wallet is on chain 1 and the connector's switch is rejected by
  the user. \<open>noSwitchHooks\<close>: the same wallet with no connector switch at all.
\<close>

definition rejectingHooks :: Hooks where
  "rejectingHooks =
     \<lparr> address = Some sampleAccount, isConnected = True, chainId = 8453,
       publicClient = Some (PublicClient 0), walletClient = Some mainnetWallet,
       switchChainAsync =
         Some (\<lambda>_. Inl (ErrorObj ''UserRejectedRequestError'' ''User rejected the request.'')),
       refetchWalletClient = Some (Inr None) \<rparr>"

definition noSwitchHooks :: Hooks where
  "noSwitchHooks =
     \<lparr> address = Some sampleAccount, isConnected = True, chainId = 8453,
       publicClient = Some (PublicClient 0), walletClient = Some mainnetWallet,
       switchChainAsync = None,
       refetchWalletClient = Some (Inr None) \<rparr>"

text \<open>
  \<open>flakyWallet\<close> has no \<^verbatim>\<open>chain\<close> field; its \<^verbatim>\<open>getChainId\<close> answers chain 1 first
  and rejects with a value that is no \<^verbatim>\<open>Error\<close> afterwards.
\<close>

definition flakyWallet :: WalletClient where
  "flakyWallet =
     \<lparr> handle = 3, chain = None, account = Some sampleAccount,
       getChainId = Some (\<lambda>round. if round = 0 then Inr 1 else Inl (NonError ''timeout'')),
       switchChain = None \<rparr>"

definition flakyHooks :: Hooks where
  "flakyHooks = noSwitchHooks\<lparr>walletClient := Some flakyWallet\<rparr>"

section \<open>Sample states and inputs\<close>

definition deployedState :: AppState where
  "deployedState = initialState\<lparr>deployPhase := success, safeResult := Some sampleSafe\<rparr>"

definition shortToken :: string where
  "shortToken = ''0xAAAAAAAAAAAAAAAAAAAAAAAAAAAAAAAAAAAAAAA''"

definition shortTokenState :: AppState where
  "shortTokenState = deployedState\<lparr>transferAddress := shortToken, transferAmount := ''1000000''\<rparr>"

definition paddedToken :: string where
  "paddedToken = '' 0x2222222222222222222222222222222222222222 ''"

definition blankAmountState :: AppState where
  "blankAmountState =
     initialState\<lparr>transferBackSafeAddress := sampleAccount,
                   transferBackAddress := paddedToken,
                   transferBackAmount := ''   ''\<rparr>"

definition transferOutState :: AppState where
  "transferOutState =
     initialState\<lparr>transferBackSafeAddress := sampleAccount,
                   transferBackAddress := paddedToken,
                   transferBackAmount := ''1000000''\<rparr>"

definition permittedState :: AppState where
  "permittedState =
     deployedState\<lparr>permissionsPhase := success, permissionsResult := Some sampleRoles\<rparr>"

definition fundingState :: AppState where
  "fundingState = deployedState\<lparr>transferAddress := sampleToken, transferAmount := ''1000000''\<rparr>"

definition fundedState :: AppState where
  "fundedState =
     fundingState\<lparr>transferPhase := success,
                  transferResult := Some (TransferAssetResult ''0xcc'')\<rparr>"

text \<open>
  The Safe address, token address and amount of transfer-out are typed in, then the
  deploy button is clicked in a render where the wallet is connected and on Base.
\<close>

definition deployClicked :: "Event list" where
  "deployClicked =
     [ChangeTransferBackSafeAddress sampleAccount,
      ChangeTransferBackAddress sampleToken,
      ChangeTransferBackAmount ''1000000'',
      Click readyHooks deploy]"

text \<open>An environment for the polyfill.\<close>

definition sampleMeta :: ImportMetaEnv where
  "sampleMeta =
     \<lparr> VITE_WALLETCONNECT_PROJECT_ID = None,
       VITE_SAFE_RPC_URL = Some ''https://rpc.example'',
       VITE_SAFE_PRIVATE_KEY = None \<rparr>"

definition sampleProcess :: Process where
  "sampleProcess = \<lparr> env = [''PRIVATE_KEY'' \<mapsto> Some ''0xkey'', ''HOME'' \<mapsto> Some ''/root''] \<rparr>"

section \<open>Properties of the negotiator\<close>

lemma await_resolved [simp]: "await (resolved x) k = k x"
  by (simp add: await_def resolved_def split: prod.splits)

lemma await_Inr [simp]: "await (cs, Inr x) k = (cs @ fst (k x), snd (k x))"
  by (simp add: await_def split: prod.splits)

lemma await_Inl [simp]: "await (cs, Inl e) k = (cs, Inl e)"
  by (simp add: await_def)

text \<open>
  C7. On a session whose resolved chain id is already the required one and which has an
  active account, \<open>ensureWalletOnBase\<close> returns that same session; the only call it can
  have made is the \<open>getChainId\<close> of the resolution itself, so no session-level switch, no
  provider-level switch and no refresh.
\<close>

theorem ensureWalletOnBase_ready_identity:
  assumes "walletClient h = Some wc"
    and "resolveChainId wc 0 = (cs, Inr (Some base_id))"
    and "account wc = Some a"
  shows "ensureWalletOnBase h = (cs, Inr wc)
    \<and> filter is_wallet_switch (fst (ensureWalletOnBase h)) = []
    \<and> set cs \<subseteq> {GetChainId (handle wc)}"
proof -
  have run: "ensureWalletOnBase h = (cs, Inr wc)"
    using assms by (simp add: ensureWalletOnBase_def resolved_def)
  have calls: "set cs \<subseteq> {GetChainId (handle wc)}"
    using assms(2)
    by (auto simp: resolveChainId_def resolved_def split: option.splits)
  then have "filter is_wallet_switch (fst (ensureWalletOnBase h)) = []"
    unfolding run by (auto simp: filter_empty_conv)
  with run calls show ?thesis by simp
qed

theorem ensureWalletOnBase_ready_identity_witness:
  "ensureWalletOnBase readyHooks = ([GetChainId 1], Inr readyWallet)
   \<and> filter is_wallet_switch (fst (ensureWalletOnBase readyHooks)) = []
   \<and> set [GetChainId 1] \<subseteq> {GetChainId (handle readyWallet)}"
  using ensureWalletOnBase_ready_identity [of readyHooks readyWallet "[GetChainId 1]" sampleAccount]
  by (simp add: readyHooks_def readyWallet_def resolveChainId_def base_id_def)

section \<open>Running a handler\<close>

lemma ensure_readyHooks: "ensureWalletOnBase readyHooks = ([GetChainId 1], Inr readyWallet)"
  by (simp add: ensureWalletOnBase_def readyHooks_def readyWallet_def resolveChainId_def resolved_def base_id_def)

lemma handleDeploySafe_Entered:
  "handleDeploySafe_start h st = Entered st' pc \<Longrightarrow>
   handleDeploySafe h sdk st =
     (fst (handleDeploySafe_try h sdk pc),
      handleDeploySafe_finish (snd (handleDeploySafe_try h sdk pc)) st')"
  by (simp add: handleDeploySafe_def split: prod.splits)

lemma handleSetPermissions_Entered:
  "handleSetPermissions_start h st = Entered st' c \<Longrightarrow>
   handleSetPermissions h sdk st =
     (fst (handleSetPermissions_try h sdk c),
      handleSetPermissions_finish (snd (handleSetPermissions_try h sdk c)) st')"
  by (simp add: handleSetPermissions_def split: prod.splits)

lemma handleTransfer_Entered:
  "handleTransfer_start h st = Entered st' c \<Longrightarrow>
   handleTransfer h sdk st =
     (fst (handleTransfer_try h sdk c),
      handleTransfer_finish (snd (handleTransfer_try h sdk c)) st')"
  by (simp add: handleTransfer_def split: prod.splits)

lemma handleTransferBack_Entered:
  "handleTransferBack_start h st = Entered st' c \<Longrightarrow>
   handleTransferBack h sdk st =
     (fst (handleTransferBack_try h sdk c),
      handleTransferBack_finish (snd (handleTransferBack_try h sdk c)) st')"
  by (simp add: handleTransferBack_def split: prod.splits)

lemma handleDeploySafe_Stopped:
  "handleDeploySafe_start h st = Stopped st' \<Longrightarrow> handleDeploySafe h sdk st = ([], st')"
  by (simp add: handleDeploySafe_def)

lemma handleSetPermissions_Stopped:
  "handleSetPermissions_start h st = Stopped st' \<Longrightarrow> handleSetPermissions h sdk st = ([], st')"
  by (simp add: handleSetPermissions_def)

lemma handleTransfer_Stopped:
  "handleTransfer_start h st = Stopped st' \<Longrightarrow> handleTransfer h sdk st = ([], st')"
  by (simp add: handleTransfer_def)

lemma handleTransferBack_Stopped:
  "handleTransferBack_start h st = Stopped st' \<Longrightarrow> handleTransferBack h sdk st = ([], st')"
  by (simp add: handleTransferBack_def)

text \<open>The body of try when the negotiator rejects, and when it hands over a session.\<close>

lemma try_rejected:
  assumes "ensureWalletOnBase h = (cs, Inl e)"
  shows "handleDeploySafe_try h sdk pc = (cs, Inl e)"
    and "handleSetPermissions_try h sdk c2 = (cs, Inl e)"
    and "handleTransfer_try h sdk c3 = (cs, Inl e)"
    and "handleTransferBack_try h sdk c3 = (cs, Inl e)"
  using assms
  by (simp_all add: handleDeploySafe_try_def handleSetPermissions_try_def
      handleTransfer_try_def handleTransferBack_try_def split: prod.splits)

lemma try_ready:
  assumes "ensureWalletOnBase h = (cs, Inr wc)" and "newOnboardingClient sdk wc pc = Inr ()"
  shows "handleDeploySafe_try h sdk pc =
           (cs @ [NewOnboardingClient (handle wc), DeploySafe], deploySafe sdk wc)"
    and "handleSetPermissions_try h sdk (pc, safe) =
           (cs @ [NewOnboardingClient (handle wc),
                  SetPermissions (safeAddress safe) (multiSendCallOnly safe)],
            setPermissions sdk wc (safeAddress safe) (multiSendCallOnly safe))"
    and "handleTransfer_try h sdk (pc, a, t, n) =
           (cs @ [NewOnboardingClient (handle wc), TransferAssetFromCallerToSafe a t n],
            transferAssetFromCallerToSafe sdk wc a t n)"
    and "handleTransferBack_try h sdk (pc, a, t, n) =
           (cs @ [NewOnboardingClient (handle wc), TransferAssetFromSafeToSafeOwner a t n],
            transferAssetFromSafeToSafeOwner sdk wc a t n)"
  using assms
  by (simp_all add: handleDeploySafe_try_def handleSetPermissions_try_def
      handleTransfer_try_def handleTransferBack_try_def construct_def)


lemma trim_samples:
  "trim shortToken = shortToken" "length shortToken = 41"
  "trim sampleAccount = sampleAccount" "trim paddedToken = sampleToken"
  "trim ''   '' = []" "trim ''1000000'' = ''1000000''"
  "malformedAddress shortToken" "\<not> malformedAddress sampleAccount"
  "\<not> malformedAddress sampleToken"
  by (simp_all add: trim_def isWhiteSpace_def shortToken_def sampleAccount_def sampleToken_def
      paddedToken_def
      malformedAddress_def startsWith_def)

section \<open>Sample runs\<close>

lemma trim_sampleToken: "trim sampleToken = sampleToken"
  by (simp add: trim_def isWhiteSpace_def sampleToken_def)

lemma deploy_run:
  "handleDeploySafe readyHooks sampleSdk initialState =
     ([GetChainId 1, NewOnboardingClient 1, DeploySafe], deployedState)"
proof -
  have s: "handleDeploySafe_start readyHooks initialState =
      Entered (initialState\<lparr>activeStep := Some deploy, deployPhase := running\<rparr>) (PublicClient 0)"
    by (simp add: handleDeploySafe_start_def readyHooks_def initialState_def)
  have t: "handleDeploySafe_try readyHooks sampleSdk (PublicClient 0) =
      ([GetChainId 1, NewOnboardingClient 1, DeploySafe], Inr sampleSafe)"
    using try_ready(1) [OF ensure_readyHooks, of sampleSdk "PublicClient 0"]
    by (simp add: sampleSdk_def readyWallet_def)
  show ?thesis
    unfolding handleDeploySafe_Entered [OF s] t
    by (simp add: handleDeploySafe_finish_def deployedState_def initialState_def)
qed

lemma permissions_start_deployed:
  "handleSetPermissions_start readyHooks deployedState =
      Entered (deployedState\<lparr>activeStep := Some permissions, permissionsPhase := running\<rparr>)
        (PublicClient 0, sampleSafe)"
  by (simp add: handleSetPermissions_start_def readyHooks_def deployedState_def
      initialState_def sampleSafe_def)

lemma permissions_run:
  "handleSetPermissions readyHooks sampleSdk deployedState =
     ([GetChainId 1, NewOnboardingClient 1,
       SetPermissions (safeAddress sampleSafe) (multiSendCallOnly sampleSafe)],
      permittedState)"
proof -
  have t: "handleSetPermissions_try readyHooks sampleSdk (PublicClient 0, sampleSafe) =
      ([GetChainId 1, NewOnboardingClient 1,
        SetPermissions (safeAddress sampleSafe) (multiSendCallOnly sampleSafe)],
       Inr sampleRoles)"
    using try_ready(2) [OF ensure_readyHooks, of sampleSdk "PublicClient 0" sampleSafe]
    by (simp add: sampleSdk_def readyWallet_def)
  show ?thesis
    unfolding handleSetPermissions_Entered [OF permissions_start_deployed] t
    by (simp add: handleSetPermissions_finish_def permittedState_def deployedState_def
        initialState_def)
qed

lemma permissions_start_permitted:
  "handleSetPermissions_start readyHooks permittedState =
      Entered (permittedState\<lparr>activeStep := Some permissions, permissionsPhase := running\<rparr>)
        (PublicClient 0, sampleSafe)"
  by (simp add: handleSetPermissions_start_def readyHooks_def permittedState_def
      deployedState_def initialState_def sampleSafe_def)

lemma transfer_run:
  "handleTransfer readyHooks sampleSdk fundingState =
     ([GetChainId 1, NewOnboardingClient 1,
       TransferAssetFromCallerToSafe (safeAddress sampleSafe) sampleToken ''1000000''],
      fundedState)"
proof -
  have s: "handleTransfer_start readyHooks fundingState =
      Entered (fundingState\<lparr>activeStep := Some transfer, transferPhase := running\<rparr>)
        (PublicClient 0, safeAddress sampleSafe, sampleToken, ''1000000'')"
    using trim_sampleToken trim_samples(6,9)
    by (simp add: handleTransfer_start_def readyHooks_def fundingState_def deployedState_def
        initialState_def sampleSafe_def Let_def)
  have t: "handleTransfer_try readyHooks sampleSdk
        (PublicClient 0, safeAddress sampleSafe, sampleToken, ''1000000'') =
      ([GetChainId 1, NewOnboardingClient 1,
        TransferAssetFromCallerToSafe (safeAddress sampleSafe) sampleToken ''1000000''],
       Inr (TransferAssetResult ''0xcc''))"
    using try_ready(3) [OF ensure_readyHooks, of sampleSdk "PublicClient 0"
        "safeAddress sampleSafe" sampleToken "''1000000''"]
    by (simp add: sampleSdk_def readyWallet_def)
  show ?thesis
    unfolding handleTransfer_Entered [OF s] t
    by (simp add: handleTransfer_finish_def fundedState_def fundingState_def deployedState_def
        initialState_def)
qed

lemma permissions_start_funded:
  "handleSetPermissions_start readyHooks fundedState =
      Entered (fundingState\<lparr>activeStep := Some permissions, permissionsPhase := running\<rparr>)
        (PublicClient 0, sampleSafe)"
  by (simp add: handleSetPermissions_start_def readyHooks_def fundedState_def fundingState_def
      deployedState_def initialState_def sampleSafe_def)

section \<open>When no switch path succeeds\<close>

lemma resolveChainId_calls: "filter is_sdk_call (fst (resolveChainId wc n)) = []"
  by (simp add: resolveChainId_def resolved_def split: option.splits)

lemma fst_await: "fst (await m k) = fst m \<or> (\<exists>x. fst (await m k) = fst m @ fst (k x))"
proof (cases m)
  case (Pair cs r)
  then show ?thesis by (cases r) auto
qed

lemma await_calls:
  assumes "filter P (fst m) = []" and "\<And>x. filter P (fst (k x)) = []"
  shows "filter P (fst (await m k)) = []"
  using fst_await [of m k] assms by auto

lemma ensure_calls_not_sdk: "filter is_sdk_call (fst (ensureWalletOnBase h)) = []"
  unfolding ensureWalletOnBase_def
  by (auto intro!: await_calls simp: resolveChainId_calls resolved_def throw_Error_def
      split: option.splits sum.splits)

lemma ensure_provider_rejects:
  assumes "walletClient h = Some wc"
    and "resolveChainId wc 0 = (cs0, Inr c)" and "c \<noteq> Some base_id"
    and "switchChain wc = None \<or> (\<exists>f e'. switchChain wc = Some f \<and> f base_id = Inl e')"
    and "switchChainAsync h = Some g" and "g base_id = Inl e"
  shows "snd (ensureWalletOnBase h) = Inl e"
  using assms
  by (auto simp: ensureWalletOnBase_def resolved_def)

lemma ensure_no_provider_switch:
  assumes "walletClient h = Some wc"
    and "resolveChainId wc 0 = (cs0, Inr c)" and "c \<noteq> Some base_id"
    and "switchChain wc = None \<or> (\<exists>f e'. switchChain wc = Some f \<and> f base_id = Inl e')"
    and "switchChainAsync h = None"
  shows "resolveChainId wc 1 = (cs1, Inr c1) \<Longrightarrow> c1 \<noteq> Some base_id \<Longrightarrow>
           snd (ensureWalletOnBase h) =
             Inl (ErrorObj ''Error'' ''Please switch your wallet to the Base network and try again.'')"
    and "resolveChainId wc 1 = (cs1, Inl e2) \<Longrightarrow> snd (ensureWalletOnBase h) = Inl e2"
  using assms
  by (auto simp: ensureWalletOnBase_def resolved_def throw_Error_def)

lemma onClick_negotiator_rejects:
  assumes "snd (onClick_start k h st)" and "snd (ensureWalletOnBase h) = Inl e"
  shows "phaseOf (snd (onClick k h sdk st)) k = error
    \<and> errorOf (snd (onClick k h sdk st)) k = Some (messageOr (fallbackMessage k) e)
    \<and> activeStep (snd (onClick k h sdk st)) = None
    \<and> filter is_sdk_call (fst (onClick k h sdk st)) = []"
proof -
  obtain cs where en: "ensureWalletOnBase h = (cs, Inl e)"
    using assms(2) by (cases "ensureWalletOnBase h") simp
  have cs: "filter is_sdk_call cs = []"
    using ensure_calls_not_sdk [of h] en by simp
  show ?thesis
  proof (cases k)
    case deploy
    with assms(1) obtain st' c where s: "handleDeploySafe_start h st = Entered st' c"
      by (cases "handleDeploySafe_start h st") (simp_all add: entered_def)
    show ?thesis
      using cs unfolding deploy onClick.simps handleDeploySafe_Entered [OF s] try_rejected(1) [OF en]
      by (simp add: handleDeploySafe_finish_def)
  next
    case permissions
    with assms(1) obtain st' c where s: "handleSetPermissions_start h st = Entered st' c"
      by (cases "handleSetPermissions_start h st") (simp_all add: entered_def)
    show ?thesis
      using cs unfolding permissions onClick.simps handleSetPermissions_Entered [OF s]
        try_rejected(2) [OF en]
      by (simp add: handleSetPermissions_finish_def)
  next
    case transfer
    with assms(1) obtain st' c where s: "handleTransfer_start h st = Entered st' c"
      by (cases "handleTransfer_start h st") (simp_all add: entered_def)
    show ?thesis
      using cs unfolding transfer onClick.simps handleTransfer_Entered [OF s]
        try_rejected(3) [OF en]
      by (simp add: handleTransfer_finish_def)
  next
    case transferBack
    with assms(1) obtain st' c where s: "handleTransferBack_start h st = Entered st' c"
      by (cases "handleTransferBack_start h st") (simp_all add: entered_def)
    show ?thesis
      using cs unfolding transferBack onClick.simps handleTransferBack_Entered [OF s]
        try_rejected(4) [OF en]
      by (simp add: handleTransferBack_finish_def)
  qed
qed

lemma ensure_rejectingHooks:
  "ensureWalletOnBase rejectingHooks =
     ([SwitchChain 2 8453, ConsoleWarn, SwitchChainAsync 8453],
      Inl (ErrorObj ''UserRejectedRequestError'' ''User rejected the request.''))"
  by (simp add: ensureWalletOnBase_def rejectingHooks_def mainnetWallet_def resolveChainId_def
      resolved_def base_id_def)

text \<open>
  C2, as stated, fails in its message: the wallet is on chain 1, its own
  \<^verbatim>\<open>switchChain\<close> rejects and the connector's switch is rejected by the user. Deploy
  ends in phase \<open>error\<close> without any SDK call, but the message stored is the one of the
  connector's rejection, not the network-mismatch message.
\<close>

theorem network_mismatch_message_counterexample:
  "walletClient rejectingHooks = Some mainnetWallet
   \<and> resolveChainId mainnetWallet 0 = ([], Inr (Some 1))
   \<and> handleDeploySafe rejectingHooks sampleSdk initialState =
       ([SwitchChain 2 8453, ConsoleWarn, SwitchChainAsync 8453],
        initialState\<lparr>deployPhase := error,
                      deployError := Some ''User rejected the request.''\<rparr>)"
proof -
  have s: "handleDeploySafe_start rejectingHooks initialState =
      Entered (initialState\<lparr>activeStep := Some deploy, deployPhase := running\<rparr>) (PublicClient 0)"
    by (simp add: handleDeploySafe_start_def rejectingHooks_def initialState_def)
  have r: "handleDeploySafe rejectingHooks sampleSdk initialState =
       ([SwitchChain 2 8453, ConsoleWarn, SwitchChainAsync 8453],
        initialState\<lparr>deployPhase := error,
                      deployError := Some ''User rejected the request.''\<rparr>)"
    unfolding handleDeploySafe_Entered [OF s] try_rejected(1) [OF ensure_rejectingHooks]
    by (simp add: handleDeploySafe_finish_def messageOr_def initialState_def)
  show ?thesis
    using r by (simp add: rejectingHooks_def mainnetWallet_def resolveChainId_def resolved_def)
qed

text \<open>
  C2, amended. Let an operation have passed its guards and entered \<open>running\<close>, let the
  resolved chain id differ from the required one, and let the session-level switch be
  missing or reject. If the provider-level switch rejects, the operation ends in phase
  \<open>error\<close> with the message of that rejection (the operation's generic fallback when
  the thrown value is no \<^verbatim>\<open>Error\<close>). If there is no provider-level switch, the chain id
  is resolved again on the same session: when it still differs, the operation ends in
  phase \<open>error\<close> with the network-mismatch message; when that resolution rejects, with
  the message of its rejection. In each of these cases no SDK call is made.
\<close>

theorem no_switch_path_succeeds:
  assumes "snd (onClick_start k h st)"
    and "walletClient h = Some wc"
    and "resolveChainId wc 0 = (cs0, Inr c)" and "c \<noteq> Some base_id"
    and "switchChain wc = None \<or> (\<exists>f e'. switchChain wc = Some f \<and> f base_id = Inl e')"
  shows "(switchChainAsync h = Some g \<and> g base_id = Inl e \<longrightarrow>
            phaseOf (snd (onClick k h sdk st)) k = error
          \<and> errorOf (snd (onClick k h sdk st)) k = Some (messageOr (fallbackMessage k) e)
          \<and> filter is_sdk_call (fst (onClick k h sdk st)) = [])
       \<and> (switchChainAsync h = None \<and> resolveChainId wc 1 = (cs1, Inr c1)
            \<and> c1 \<noteq> Some base_id \<longrightarrow>
            phaseOf (snd (onClick k h sdk st)) k = error
          \<and> errorOf (snd (onClick k h sdk st)) k =
              Some ''Please switch your wallet to the Base network and try again.''
          \<and> filter is_sdk_call (fst (onClick k h sdk st)) = [])
       \<and> (switchChainAsync h = None \<and> resolveChainId wc 1 = (cs1, Inl e2) \<longrightarrow>
            phaseOf (snd (onClick k h sdk st)) k = error
          \<and> errorOf (snd (onClick k h sdk st)) k = Some (messageOr (fallbackMessage k) e2)
          \<and> filter is_sdk_call (fst (onClick k h sdk st)) = [])"
proof (intro conjI impI)
  assume a: "switchChainAsync h = Some g \<and> g base_id = Inl e"
  have "snd (ensureWalletOnBase h) = Inl e"
    using ensure_provider_rejects [OF assms(2-5)] a by blast
  from onClick_negotiator_rejects [OF assms(1) this, of sdk]
  show "phaseOf (snd (onClick k h sdk st)) k = error"
    and "errorOf (snd (onClick k h sdk st)) k = Some (messageOr (fallbackMessage k) e)"
    and "filter is_sdk_call (fst (onClick k h sdk st)) = []"
    by simp_all
next
  assume a: "switchChainAsync h = None \<and> resolveChainId wc 1 = (cs1, Inr c1)
      \<and> c1 \<noteq> Some base_id"
  have "snd (ensureWalletOnBase h) =
      Inl (ErrorObj ''Error'' ''Please switch your wallet to the Base network and try again.'')"
    using ensure_no_provider_switch(1) [OF assms(2-5)] a by blast
  from onClick_negotiator_rejects [OF assms(1) this, of sdk]
  show "phaseOf (snd (onClick k h sdk st)) k = error"
    and "errorOf (snd (onClick k h sdk st)) k =
      Some ''Please switch your wallet to the Base network and try again.''"
    and "filter is_sdk_call (fst (onClick k h sdk st)) = []"
    by (simp_all add: messageOr_def)
next
  assume a: "switchChainAsync h = None \<and> resolveChainId wc 1 = (cs1, Inl e2)"
  have "snd (ensureWalletOnBase h) = Inl e2"
    using ensure_no_provider_switch(2) [OF assms(2-5)] a by blast
  from onClick_negotiator_rejects [OF assms(1) this, of sdk]
  show "phaseOf (snd (onClick k h sdk st)) k = error"
    and "errorOf (snd (onClick k h sdk st)) k = Some (messageOr (fallbackMessage k) e2)"
    and "filter is_sdk_call (fst (onClick k h sdk st)) = []"
    by simp_all
qed

theorem no_switch_path_succeeds_witness:
  "deployPhase (snd (handleDeploySafe rejectingHooks sampleSdk initialState)) = error
   \<and> deployError (snd (handleDeploySafe rejectingHooks sampleSdk initialState))
       = Some ''User rejected the request.''
   \<and> filter is_sdk_call (fst (handleDeploySafe rejectingHooks sampleSdk initialState)) = []
   \<and> transferBackPhase (snd (handleTransferBack noSwitchHooks sampleSdk transferOutState)) = error
   \<and> transferBackError (snd (handleTransferBack noSwitchHooks sampleSdk transferOutState))
       = Some ''Please switch your wallet to the Base network and try again.''
   \<and> filter is_sdk_call (fst (handleTransferBack noSwitchHooks sampleSdk transferOutState)) = []
   \<and> permissionsPhase (snd (handleSetPermissions flakyHooks sampleSdk deployedState)) = error
   \<and> permissionsError (snd (handleSetPermissions flakyHooks sampleSdk deployedState))
       = Some ''Failed to set permissions.''
   \<and> filter is_sdk_call (fst (handleSetPermissions flakyHooks sampleSdk deployedState)) = []"
proof -
  have e1: "snd (onClick_start deploy rejectingHooks initialState)"
    by (simp add: handleDeploySafe_start_def rejectingHooks_def entered_def)
  have e2: "snd (onClick_start transferBack noSwitchHooks transferOutState)"
    using trim_samples(3,4,6,8,9)
    by (simp add: handleTransferBack_start_def noSwitchHooks_def transferOutState_def
        initialState_def entered_def Let_def)
  have e3: "snd (onClick_start permissions flakyHooks deployedState)"
    by (simp add: handleSetPermissions_start_def flakyHooks_def noSwitchHooks_def
        deployedState_def initialState_def sampleSafe_def entered_def)
  have w: "walletClient rejectingHooks = Some mainnetWallet"
    "walletClient noSwitchHooks = Some mainnetWallet"
    "walletClient flakyHooks = Some flakyWallet"
    by (simp_all add: rejectingHooks_def noSwitchHooks_def flakyHooks_def)
  have r: "resolveChainId mainnetWallet 0 = ([], Inr (Some 1))"
    "resolveChainId mainnetWallet 1 = ([], Inr (Some 1))"
    "resolveChainId flakyWallet 0 = ([GetChainId 3], Inr (Some 1))"
    "resolveChainId flakyWallet 1 = ([GetChainId 3], Inl (NonError ''timeout''))"
    "Some (1::nat) \<noteq> Some base_id"
    by (simp_all add: resolveChainId_def resolved_def mainnetWallet_def flakyWallet_def
        base_id_def)
  have sw: "switchChain mainnetWallet = None \<or>
      (\<exists>f e'. switchChain mainnetWallet = Some f \<and> f base_id = Inl e')"
    "switchChain flakyWallet = None \<or>
      (\<exists>f e'. switchChain flakyWallet = Some f \<and> f base_id = Inl e')"
    by (simp_all add: mainnetWallet_def flakyWallet_def)
  have p: "switchChainAsync rejectingHooks =
      Some (\<lambda>_. Inl (ErrorObj ''UserRejectedRequestError'' ''User rejected the request.''))"
    "switchChainAsync noSwitchHooks = None" "switchChainAsync flakyHooks = None"
    by (simp_all add: rejectingHooks_def noSwitchHooks_def flakyHooks_def)
  show ?thesis
    using
      no_switch_path_succeeds [OF e1 w(1) r(1) r(5) sw(1),
        where g = "\<lambda>_. Inl (ErrorObj ''UserRejectedRequestError'' ''User rejected the request.'')"
        and e = "ErrorObj ''UserRejectedRequestError'' ''User rejected the request.''"
        and sdk = sampleSdk]
      no_switch_path_succeeds [OF e2 w(2) r(1) r(5) sw(1),
        where ?cs1.0 = "[]" and ?c1.0 = "Some 1" and sdk = sampleSdk]
      no_switch_path_succeeds [OF e3 w(3) r(3) r(5) sw(2),
        where ?cs1.0 = "[GetChainId 3]" and ?e2.0 = "NonError ''timeout''" and sdk = sampleSdk]
      p r
    by (simp add: messageOr_def)
qed

section \<open>Validation in the transfer handlers\<close>

lemma malformedAddress_iff:
  "malformedAddress a \<longleftrightarrow> \<not> startsWith a ''0x'' \<or> length a \<noteq> 42"
  by (auto simp: malformedAddress_def)

text \<open>
  C3. In both transfer handlers, a trimmed token address that does not start with
  \<^verbatim>\<open>0x\<close> or whose length is not 42, or a trimmed amount that is empty, stops the
  handler in its synchronous start: the step's phase is \<open>error\<close>, no call is made
  (neither the negotiator's nor the SDK's), and the handler is not marked active. Once
  the guards before it have passed (network client present; deploy result present for
  transfer-in; a well-formed Safe address typed in for transfer-out, which is checked by
  the same rule and has its own message), the message is the one of the token address,
  or else the one of the amount.
\<close>

theorem transfer_validation_stops:
  "(\<not> startsWith (trim (transferAddress st)) ''0x'' \<or> length (trim (transferAddress st)) \<noteq> 42
      \<or> trim (transferAmount st) = [] \<longrightarrow>
      handleTransfer_start h st = Stopped (snd (handleTransfer h sdk st))
      \<and> fst (handleTransfer h sdk st) = []
      \<and> transferPhase (snd (handleTransfer h sdk st)) = error
      \<and> activeStep (snd (handleTransfer h sdk st)) = activeStep st
      \<and> (publicClient h \<noteq> None \<and> safeResult st = Some safe \<and> safeAddress safe \<noteq> [] \<longrightarrow>
           transferError (snd (handleTransfer h sdk st)) =
             Some (if malformedAddress (trim (transferAddress st))
                   then ''Enter a valid token address.''
                   else ''Enter an amount (integer or hex string).'')))
   \<and> (\<not> startsWith (trim (transferBackAddress st)) ''0x''
      \<or> length (trim (transferBackAddress st)) \<noteq> 42
      \<or> trim (transferBackAmount st) = [] \<longrightarrow>
      handleTransferBack_start h st = Stopped (snd (handleTransferBack h sdk st))
      \<and> fst (handleTransferBack h sdk st) = []
      \<and> transferBackPhase (snd (handleTransferBack h sdk st)) = error
      \<and> activeStep (snd (handleTransferBack h sdk st)) = activeStep st
      \<and> (publicClient h \<noteq> None \<longrightarrow>
           transferBackError (snd (handleTransferBack h sdk st)) =
             Some (if malformedAddress (trim (transferBackSafeAddress st))
                   then ''Enter a valid Safe address.''
                   else if malformedAddress (trim (transferBackAddress st))
                   then ''Enter a valid token address.''
                   else ''Enter an amount (integer or hex string).'')))"
proof -
  have a: "handleTransfer_start h st = Stopped (snd (handleTransfer h sdk st))
      \<and> fst (handleTransfer h sdk st) = []
      \<and> transferPhase (snd (handleTransfer h sdk st)) = error
      \<and> activeStep (snd (handleTransfer h sdk st)) = activeStep st
      \<and> (publicClient h \<noteq> None \<and> safeResult st = Some safe \<and> safeAddress safe \<noteq> [] \<longrightarrow>
           transferError (snd (handleTransfer h sdk st)) =
             Some (if malformedAddress (trim (transferAddress st))
                   then ''Enter a valid token address.''
                   else ''Enter an amount (integer or hex string).''))"
    if "malformedAddress (trim (transferAddress st)) \<or> trim (transferAmount st) = []"
    using that
    by (auto simp: handleTransfer_def handleTransfer_start_def Let_def split: option.splits)
  have b: "handleTransferBack_start h st = Stopped (snd (handleTransferBack h sdk st))
      \<and> fst (handleTransferBack h sdk st) = []
      \<and> transferBackPhase (snd (handleTransferBack h sdk st)) = error
      \<and> activeStep (snd (handleTransferBack h sdk st)) = activeStep st
      \<and> (publicClient h \<noteq> None \<longrightarrow>
           transferBackError (snd (handleTransferBack h sdk st)) =
             Some (if malformedAddress (trim (transferBackSafeAddress st))
                   then ''Enter a valid Safe address.''
                   else if malformedAddress (trim (transferBackAddress st))
                   then ''Enter a valid token address.''
                   else ''Enter an amount (integer or hex string).''))"
    if "malformedAddress (trim (transferBackAddress st)) \<or> trim (transferBackAmount st) = []"
    using that
    by (auto simp: handleTransferBack_def handleTransferBack_start_def Let_def
        split: option.splits)
  show ?thesis
    using a b unfolding malformedAddress_iff by blast
qed

theorem transfer_validation_stops_witness:
  "fst (handleTransfer readyHooks sampleSdk shortTokenState) = []
   \<and> transferPhase (snd (handleTransfer readyHooks sampleSdk shortTokenState)) = error
   \<and> transferError (snd (handleTransfer readyHooks sampleSdk shortTokenState))
       = Some ''Enter a valid token address.''
   \<and> fst (handleTransferBack readyHooks sampleSdk blankAmountState) = []
   \<and> transferBackPhase (snd (handleTransferBack readyHooks sampleSdk blankAmountState)) = error
   \<and> transferBackError (snd (handleTransferBack readyHooks sampleSdk blankAmountState))
       = Some ''Enter an amount (integer or hex string).''"
proof -
  have a: "length (trim (transferAddress shortTokenState)) \<noteq> 42"
    by (simp add: shortTokenState_def trim_samples)
  have b: "trim (transferBackAmount blankAmountState) = []"
    by (simp add: blankAmountState_def trim_samples)
  have c: "publicClient readyHooks \<noteq> None" "safeResult shortTokenState = Some sampleSafe"
    "safeAddress sampleSafe \<noteq> []"
    by (simp_all add: readyHooks_def shortTokenState_def deployedState_def sampleSafe_def)
  have d: "malformedAddress (trim (transferAddress shortTokenState))"
    "\<not> malformedAddress (trim (transferBackSafeAddress blankAmountState))"
    "\<not> malformedAddress (trim (transferBackAddress blankAmountState))"
    by (simp_all add: shortTokenState_def blankAmountState_def trim_samples)
  show ?thesis
    using a b c d
      transfer_validation_stops [of shortTokenState readyHooks sampleSdk sampleSafe]
      transfer_validation_stops [of blankAmountState readyHooks sampleSdk sampleSafe]
    by simp
qed

section \<open>Guards on the deploy result, and what a later step leaves alone\<close>

text \<open>
  C6. Set-permissions and transfer-in are guarded on the deploy result: with no deploy
  result (none stored, or one without a Safe address) either handler stops in its
  synchronous start with phase \<open>error\<close> and no call at all; the message is
  \<^verbatim>\<open>Deploy a Safe first.\<close> (or, when the network client is missing too, the message of
  that earlier guard). Transfer-out does not read the deploy result: with a network
  client and a well-formed Safe address, token address and a non-empty amount typed
  in, it enters \<open>running\<close> whatever the deploy result is, runs the negotiator and, on a
  ready session, calls the SDK with the typed Safe address and stores its result.
\<close>

theorem deploy_result_guards:
  "(safeResult st = None \<or> (\<exists>safe. safeResult st = Some safe \<and> safeAddress safe = []) \<longrightarrow>
      handleSetPermissions_start h st = Stopped (snd (handleSetPermissions h sdk st))
      \<and> fst (handleSetPermissions h sdk st) = []
      \<and> permissionsPhase (snd (handleSetPermissions h sdk st)) = error
      \<and> permissionsError (snd (handleSetPermissions h sdk st)) =
           Some (if publicClient h = None then ''Public client not available.''
                 else ''Deploy a Safe first.'')
      \<and> handleTransfer_start h st = Stopped (snd (handleTransfer h sdk st))
      \<and> fst (handleTransfer h sdk st) = []
      \<and> transferPhase (snd (handleTransfer h sdk st)) = error
      \<and> transferError (snd (handleTransfer h sdk st)) =
           Some (if publicClient h = None then ''Public client not available.''
                 else ''Deploy a Safe first.''))
   \<and> (publicClient h = Some pc
      \<and> \<not> malformedAddress (trim (transferBackSafeAddress st))
      \<and> \<not> malformedAddress (trim (transferBackAddress st))
      \<and> trim (transferBackAmount st) \<noteq> [] \<longrightarrow>
      handleTransferBack_start h st =
        Entered
          (st\<lparr>activeStep := Some transferBack, transferBackPhase := running,
              transferBackError := None\<rparr>)
          (pc, trim (transferBackSafeAddress st), trim (transferBackAddress st),
           trim (transferBackAmount st))
      \<and> (\<exists>cs'. fst (handleTransferBack h sdk st) = fst (ensureWalletOnBase h) @ cs')
      \<and> (ensureWalletOnBase h = (cs, Inr wc) \<and> newOnboardingClient sdk wc pc = Inr ()
           \<and> transferAssetFromSafeToSafeOwner sdk wc (trim (transferBackSafeAddress st))
                (trim (transferBackAddress st)) (trim (transferBackAmount st)) = Inr r \<longrightarrow>
           handleTransferBack h sdk st =
             (cs @ [NewOnboardingClient (handle wc),
                    TransferAssetFromSafeToSafeOwner (trim (transferBackSafeAddress st))
                      (trim (transferBackAddress st)) (trim (transferBackAmount st))],
              st\<lparr>activeStep := None, transferBackPhase := success,
                  transferBackError := None, transferBackResult := Some r\<rparr>)))"
proof -
  have a: "handleSetPermissions_start h st = Stopped (snd (handleSetPermissions h sdk st))
      \<and> fst (handleSetPermissions h sdk st) = []
      \<and> permissionsPhase (snd (handleSetPermissions h sdk st)) = error
      \<and> permissionsError (snd (handleSetPermissions h sdk st)) =
           Some (if publicClient h = None then ''Public client not available.''
                 else ''Deploy a Safe first.'')"
    if "safeResult st = None \<or> (\<exists>safe. safeResult st = Some safe \<and> safeAddress safe = [])"
    using that
    by (auto simp: handleSetPermissions_def handleSetPermissions_start_def split: option.splits)
  have b: "handleTransfer_start h st = Stopped (snd (handleTransfer h sdk st))
      \<and> fst (handleTransfer h sdk st) = []
      \<and> transferPhase (snd (handleTransfer h sdk st)) = error
      \<and> transferError (snd (handleTransfer h sdk st)) =
           Some (if publicClient h = None then ''Public client not available.''
                 else ''Deploy a Safe first.'')"
    if "safeResult st = None \<or> (\<exists>safe. safeResult st = Some safe \<and> safeAddress safe = [])"
    using that
    by (auto simp: handleTransfer_def handleTransfer_start_def split: option.splits)
  have c: "handleTransferBack_start h st =
        Entered
          (st\<lparr>activeStep := Some transferBack, transferBackPhase := running,
              transferBackError := None\<rparr>)
          (pc, trim (transferBackSafeAddress st), trim (transferBackAddress st),
           trim (transferBackAmount st))
      \<and> (\<exists>cs'. fst (handleTransferBack h sdk st) = fst (ensureWalletOnBase h) @ cs')
      \<and> (ensureWalletOnBase h = (cs, Inr wc) \<and> newOnboardingClient sdk wc pc = Inr ()
           \<and> transferAssetFromSafeToSafeOwner sdk wc (trim (transferBackSafeAddress st))
                (trim (transferBackAddress st)) (trim (transferBackAmount st)) = Inr r \<longrightarrow>
           handleTransferBack h sdk st =
             (cs @ [NewOnboardingClient (handle wc),
                    TransferAssetFromSafeToSafeOwner (trim (transferBackSafeAddress st))
                      (trim (transferBackAddress st)) (trim (transferBackAmount st))],
              st\<lparr>activeStep := None, transferBackPhase := success,
                  transferBackError := None, transferBackResult := Some r\<rparr>))"
    if g: "publicClient h = Some pc" "\<not> malformedAddress (trim (transferBackSafeAddress st))"
      "\<not> malformedAddress (trim (transferBackAddress st))" "trim (transferBackAmount st) \<noteq> []"
  proof -
    let ?c = "(pc, trim (transferBackSafeAddress st), trim (transferBackAddress st),
           trim (transferBackAmount st))"
    have s: "handleTransferBack_start h st =
        Entered
          (st\<lparr>activeStep := Some transferBack, transferBackPhase := running,
              transferBackError := None\<rparr>) ?c"
      using g by (simp add: handleTransferBack_start_def Let_def)
    have p: "\<exists>cs'. fst (handleTransferBack_try h sdk ?c) = fst (ensureWalletOnBase h) @ cs'"
      by (cases "ensureWalletOnBase h"; cases "snd (ensureWalletOnBase h)")
         (auto simp: handleTransferBack_try_def await_def split: prod.splits sum.splits)
    have r: "handleTransferBack h sdk st =
             (cs @ [NewOnboardingClient (handle wc),
                    TransferAssetFromSafeToSafeOwner (trim (transferBackSafeAddress st))
                      (trim (transferBackAddress st)) (trim (transferBackAmount st))],
              st\<lparr>activeStep := None, transferBackPhase := success,
                  transferBackError := None, transferBackResult := Some r\<rparr>)"
      if "ensureWalletOnBase h = (cs, Inr wc)" "newOnboardingClient sdk wc pc = Inr ()"
        "transferAssetFromSafeToSafeOwner sdk wc (trim (transferBackSafeAddress st))
                (trim (transferBackAddress st)) (trim (transferBackAmount st)) = Inr r"
      unfolding handleTransferBack_Entered [OF s] try_ready(4) [OF that(1,2)]
      using that(3) by (simp add: handleTransferBack_finish_def)
    show ?thesis
      using s p r unfolding handleTransferBack_Entered [OF s] by simp
  qed
  show ?thesis
    using a b c by blast
qed

theorem deploy_result_guards_witness:
  "fst (handleSetPermissions readyHooks sampleSdk initialState) = []
   \<and> permissionsPhase (snd (handleSetPermissions readyHooks sampleSdk initialState)) = error
   \<and> permissionsError (snd (handleSetPermissions readyHooks sampleSdk initialState))
       = Some ''Deploy a Safe first.''
   \<and> fst (handleTransfer readyHooks sampleSdk initialState) = []
   \<and> transferPhase (snd (handleTransfer readyHooks sampleSdk initialState)) = error
   \<and> transferError (snd (handleTransfer readyHooks sampleSdk initialState))
       = Some ''Deploy a Safe first.''
   \<and> safeResult transferOutState = None
   \<and> handleTransferBack readyHooks sampleSdk transferOutState =
       ([GetChainId 1, NewOnboardingClient 1,
         TransferAssetFromSafeToSafeOwner sampleAccount sampleToken ''1000000''],
        transferOutState\<lparr>transferBackPhase := success,
                          transferBackResult := Some (TransferAssetResult ''0xdd'')\<rparr>)"
proof -
  have a: "safeResult initialState = None" "publicClient readyHooks \<noteq> None"
    by (simp_all add: initialState_def readyHooks_def)
  have b: "publicClient readyHooks = Some (PublicClient 0)"
    "trim (transferBackSafeAddress transferOutState) = sampleAccount"
    "trim (transferBackAddress transferOutState) = sampleToken"
    "trim (transferBackAmount transferOutState) = ''1000000''"
    "safeResult transferOutState = None"
    by (simp_all add: readyHooks_def transferOutState_def trim_samples initialState_def)
  have c: "newOnboardingClient sampleSdk readyWallet (PublicClient 0) = Inr ()"
    "transferAssetFromSafeToSafeOwner sampleSdk readyWallet sampleAccount sampleToken ''1000000''
       = Inr (TransferAssetResult ''0xdd'')"
    "handle readyWallet = 1"
    by (simp_all add: sampleSdk_def readyWallet_def)
  have d: "transferOutState\<lparr>activeStep := None, transferBackPhase := success,
              transferBackError := None,
              transferBackResult := Some (TransferAssetResult ''0xdd'')\<rparr>
         = transferOutState\<lparr>transferBackPhase := success,
              transferBackResult := Some (TransferAssetResult ''0xdd'')\<rparr>"
    by (simp add: transferOutState_def initialState_def)
  show ?thesis
    using a b c trim_samples(8,9) ensure_readyHooks
      deploy_result_guards [where st = initialState and h = readyHooks and sdk = sampleSdk]
      deploy_result_guards [where st = transferOutState and h = readyHooks
        and pc = "PublicClient 0" and sdk = sampleSdk and cs = "[GetChainId 1]"
        and wc = readyWallet and r = "TransferAssetResult ''0xdd''"]
    unfolding d [symmetric]
    by simp
qed

text \<open>
  C8. A later step leaves the earlier steps alone: whatever the outcome of
  set-permissions, in particular when it ends in phase \<open>error\<close>, the phase, result and
  error of deploy are what they were before it was triggered; the same holds for
  transfer-in with respect to deploy and set-permissions, and for transfer-out with
  respect to deploy, set-permissions and transfer-in.
\<close>

theorem later_step_keeps_earlier_results:
  "safeResult (snd (handleSetPermissions h sdk st)) = safeResult st
   \<and> deployPhase (snd (handleSetPermissions h sdk st)) = deployPhase st
   \<and> deployError (snd (handleSetPermissions h sdk st)) = deployError st
   \<and> safeResult (snd (handleTransfer h sdk st)) = safeResult st
   \<and> deployPhase (snd (handleTransfer h sdk st)) = deployPhase st
   \<and> deployError (snd (handleTransfer h sdk st)) = deployError st
   \<and> permissionsResult (snd (handleTransfer h sdk st)) = permissionsResult st
   \<and> permissionsPhase (snd (handleTransfer h sdk st)) = permissionsPhase st
   \<and> permissionsError (snd (handleTransfer h sdk st)) = permissionsError st
   \<and> safeResult (snd (handleTransferBack h sdk st)) = safeResult st
   \<and> deployPhase (snd (handleTransferBack h sdk st)) = deployPhase st
   \<and> deployError (snd (handleTransferBack h sdk st)) = deployError st
   \<and> permissionsResult (snd (handleTransferBack h sdk st)) = permissionsResult st
   \<and> permissionsPhase (snd (handleTransferBack h sdk st)) = permissionsPhase st
   \<and> permissionsError (snd (handleTransferBack h sdk st)) = permissionsError st
   \<and> transferResult (snd (handleTransferBack h sdk st)) = transferResult st
   \<and> transferPhase (snd (handleTransferBack h sdk st)) = transferPhase st
   \<and> transferError (snd (handleTransferBack h sdk st)) = transferError st"
proof -
  have a: "safeResult (snd (handleSetPermissions h sdk st)) = safeResult st
   \<and> deployPhase (snd (handleSetPermissions h sdk st)) = deployPhase st
   \<and> deployError (snd (handleSetPermissions h sdk st)) = deployError st"
    by (auto simp: handleSetPermissions_def handleSetPermissions_start_def
        handleSetPermissions_finish_def split: option.splits prod.splits sum.splits)
  have b: "safeResult (snd (handleTransfer h sdk st)) = safeResult st
   \<and> deployPhase (snd (handleTransfer h sdk st)) = deployPhase st
   \<and> deployError (snd (handleTransfer h sdk st)) = deployError st
   \<and> permissionsResult (snd (handleTransfer h sdk st)) = permissionsResult st
   \<and> permissionsPhase (snd (handleTransfer h sdk st)) = permissionsPhase st
   \<and> permissionsError (snd (handleTransfer h sdk st)) = permissionsError st"
    by (auto simp: handleTransfer_def handleTransfer_start_def Let_def
        handleTransfer_finish_def split: option.splits prod.splits sum.splits)
  have c: "safeResult (snd (handleTransferBack h sdk st)) = safeResult st
   \<and> deployPhase (snd (handleTransferBack h sdk st)) = deployPhase st
   \<and> deployError (snd (handleTransferBack h sdk st)) = deployError st
   \<and> permissionsResult (snd (handleTransferBack h sdk st)) = permissionsResult st
   \<and> permissionsPhase (snd (handleTransferBack h sdk st)) = permissionsPhase st
   \<and> permissionsError (snd (handleTransferBack h sdk st)) = permissionsError st
   \<and> transferResult (snd (handleTransferBack h sdk st)) = transferResult st
   \<and> transferPhase (snd (handleTransferBack h sdk st)) = transferPhase st
   \<and> transferError (snd (handleTransferBack h sdk st)) = transferError st"
    by (auto simp: handleTransferBack_def handleTransferBack_start_def Let_def
        handleTransferBack_finish_def split: option.splits prod.splits sum.splits)
  show ?thesis
    using a b c by simp
qed

lemma permissions_fail_run:
  "handleSetPermissions readyHooks failingSdk deployedState =
     ([GetChainId 1, NewOnboardingClient 1,
       SetPermissions (safeAddress sampleSafe) (multiSendCallOnly sampleSafe)],
      deployedState\<lparr>permissionsPhase := error,
                     permissionsError := Some ''execution reverted''\<rparr>)"
proof -
  have s: "handleSetPermissions_start readyHooks deployedState =
      Entered (deployedState\<lparr>activeStep := Some permissions, permissionsPhase := running\<rparr>)
        (PublicClient 0, sampleSafe)"
    by (simp add: handleSetPermissions_start_def readyHooks_def deployedState_def
        initialState_def sampleSafe_def)
  have t: "handleSetPermissions_try readyHooks failingSdk (PublicClient 0, sampleSafe) =
      ([GetChainId 1, NewOnboardingClient 1,
        SetPermissions (safeAddress sampleSafe) (multiSendCallOnly sampleSafe)],
       Inl (ErrorObj ''Error'' ''execution reverted''))"
    using try_ready(2) [OF ensure_readyHooks, of failingSdk "PublicClient 0" sampleSafe]
    by (simp add: failingSdk_def readyWallet_def)
  show ?thesis
    unfolding handleSetPermissions_Entered [OF s] t
    by (simp add: handleSetPermissions_finish_def deployedState_def initialState_def
        messageOr_def)
qed

theorem later_step_keeps_earlier_results_witness:
  "permissionsPhase (snd (handleSetPermissions readyHooks failingSdk deployedState)) = error
   \<and> permissionsError (snd (handleSetPermissions readyHooks failingSdk deployedState))
       = Some ''execution reverted''
   \<and> safeResult (snd (handleSetPermissions readyHooks failingSdk deployedState))
       = Some sampleSafe
   \<and> deployPhase (snd (handleSetPermissions readyHooks failingSdk deployedState)) = success"
proof -
  have "safeResult deployedState = Some sampleSafe" "deployPhase deployedState = success"
    by (simp_all add: deployedState_def initialState_def)
  moreover have
    "permissionsPhase (snd (handleSetPermissions readyHooks failingSdk deployedState)) = error"
    "permissionsError (snd (handleSetPermissions readyHooks failingSdk deployedState))
       = Some ''execution reverted''"
    unfolding permissions_fail_run by simp_all
  ultimately show ?thesis
    using later_step_keeps_earlier_results [of readyHooks failingSdk deployedState]
    by simp
qed

section \<open>What entering running clears\<close>

text \<open>
  C5, as stated, fails: after a successful set-permissions, triggering it again enters
  \<open>running\<close> with the previous result still stored.
\<close>

theorem own_result_kept_counterexample:
  "snd (handleDeploySafe readyHooks sampleSdk initialState) = deployedState
   \<and> snd (handleSetPermissions readyHooks sampleSdk deployedState) = permittedState
   \<and> entered (handleSetPermissions_start readyHooks permittedState)
   \<and> permissionsPhase (stateOf (handleSetPermissions_start readyHooks permittedState)) = running
   \<and> permissionsResult (stateOf (handleSetPermissions_start readyHooks permittedState))
       = Some sampleRoles"
  unfolding deploy_run permissions_run permissions_start_permitted
  by (simp add: entered_def stateOf_def permittedState_def)

text \<open>
  C5, amended. On entering \<open>running\<close>, each of the four handlers sets its own phase to
  \<open>running\<close> and clears its own error. Deploy alone also clears its own result; the
  handlers of set-permissions, transfer-in and transfer-out leave their own previous
  result stored as it was.
\<close>

theorem entering_running_own_slots:
  "(entered (handleDeploySafe_start h st) \<longrightarrow>
      deployPhase (stateOf (handleDeploySafe_start h st)) = running
      \<and> deployError (stateOf (handleDeploySafe_start h st)) = None
      \<and> safeResult (stateOf (handleDeploySafe_start h st)) = None)
   \<and> (entered (handleSetPermissions_start h st) \<longrightarrow>
      permissionsPhase (stateOf (handleSetPermissions_start h st)) = running
      \<and> permissionsError (stateOf (handleSetPermissions_start h st)) = None
      \<and> permissionsResult (stateOf (handleSetPermissions_start h st)) = permissionsResult st)
   \<and> (entered (handleTransfer_start h st) \<longrightarrow>
      transferPhase (stateOf (handleTransfer_start h st)) = running
      \<and> transferError (stateOf (handleTransfer_start h st)) = None
      \<and> transferResult (stateOf (handleTransfer_start h st)) = transferResult st)
   \<and> (entered (handleTransferBack_start h st) \<longrightarrow>
      transferBackPhase (stateOf (handleTransferBack_start h st)) = running
      \<and> transferBackError (stateOf (handleTransferBack_start h st)) = None
      \<and> transferBackResult (stateOf (handleTransferBack_start h st)) = transferBackResult st)"
  by (auto simp: handleDeploySafe_start_def handleSetPermissions_start_def
      handleTransfer_start_def handleTransferBack_start_def Let_def entered_def stateOf_def
      split: option.splits if_splits)

theorem entering_running_own_slots_witness:
  "deployPhase (stateOf (handleDeploySafe_start readyHooks fundedState)) = running
   \<and> deployError (stateOf (handleDeploySafe_start readyHooks fundedState)) = None
   \<and> safeResult (stateOf (handleDeploySafe_start readyHooks fundedState)) = None
   \<and> permissionsPhase (stateOf (handleSetPermissions_start readyHooks fundedState)) = running
   \<and> permissionsError (stateOf (handleSetPermissions_start readyHooks fundedState)) = None
   \<and> transferPhase (stateOf (handleTransfer_start readyHooks fundedState)) = running
   \<and> transferError (stateOf (handleTransfer_start readyHooks fundedState)) = None
   \<and> transferResult (stateOf (handleTransfer_start readyHooks fundedState))
       = Some (TransferAssetResult ''0xcc'')"
proof -
  have a: "entered (handleDeploySafe_start readyHooks fundedState)"
    by (simp add: handleDeploySafe_start_def readyHooks_def entered_def)
  have b: "entered (handleSetPermissions_start readyHooks fundedState)"
    unfolding permissions_start_funded by (simp add: entered_def)
  have c: "entered (handleTransfer_start readyHooks fundedState)"
    using trim_sampleToken trim_samples(6,9)
    by (simp add: handleTransfer_start_def readyHooks_def fundedState_def fundingState_def
        deployedState_def initialState_def sampleSafe_def Let_def entered_def)
  have d: "transferResult fundedState = Some (TransferAssetResult ''0xcc'')"
    by (simp add: fundedState_def)
  show ?thesis
    using a b c d entering_running_own_slots [of readyHooks fundedState]
    by simp
qed

text \<open>
  C4, as stated, fails: set-permissions resets the transfer steps too. After a
  successful transfer-in, triggering set-permissions puts the transfer-in phase back to
  \<open>idle\<close> and drops its result.
\<close>

theorem only_deploy_resets_counterexample:
  "snd (handleTransfer readyHooks sampleSdk fundingState) = fundedState
   \<and> transferPhase fundedState = success
   \<and> transferResult fundedState = Some (TransferAssetResult ''0xcc'')
   \<and> entered (handleSetPermissions_start readyHooks fundedState)
   \<and> transferPhase (stateOf (handleSetPermissions_start readyHooks fundedState)) = idle
   \<and> transferResult (stateOf (handleSetPermissions_start readyHooks fundedState)) = None"
  unfolding transfer_run permissions_start_funded
  by (simp add: entered_def stateOf_def fundedState_def fundingState_def deployedState_def
      initialState_def)

text \<open>
  C4, amended. On entering \<open>running\<close>, deploy resets the phase, result and error of
  set-permissions, transfer-in and transfer-out to \<open>idle\<close>, none and none;
  set-permissions resets those of transfer-in and transfer-out and leaves deploy's as
  they were; transfer-in and transfer-out leave the phase, result and error of every
  other step as they were.
\<close>

theorem entering_running_other_slots:
  "(entered (handleDeploySafe_start h st) \<longrightarrow>
      permissionsPhase (stateOf (handleDeploySafe_start h st)) = idle
      \<and> permissionsResult (stateOf (handleDeploySafe_start h st)) = None
      \<and> permissionsError (stateOf (handleDeploySafe_start h st)) = None
      \<and> transferPhase (stateOf (handleDeploySafe_start h st)) = idle
      \<and> transferResult (stateOf (handleDeploySafe_start h st)) = None
      \<and> transferError (stateOf (handleDeploySafe_start h st)) = None
      \<and> transferBackPhase (stateOf (handleDeploySafe_start h st)) = idle
      \<and> transferBackResult (stateOf (handleDeploySafe_start h st)) = None
      \<and> transferBackError (stateOf (handleDeploySafe_start h st)) = None)
   \<and> (entered (handleSetPermissions_start h st) \<longrightarrow>
      transferPhase (stateOf (handleSetPermissions_start h st)) = idle
      \<and> transferResult (stateOf (handleSetPermissions_start h st)) = None
      \<and> transferError (stateOf (handleSetPermissions_start h st)) = None
      \<and> transferBackPhase (stateOf (handleSetPermissions_start h st)) = idle
      \<and> transferBackResult (stateOf (handleSetPermissions_start h st)) = None
      \<and> transferBackError (stateOf (handleSetPermissions_start h st)) = None
      \<and> deployPhase (stateOf (handleSetPermissions_start h st)) = deployPhase st
      \<and> safeResult (stateOf (handleSetPermissions_start h st)) = safeResult st
      \<and> deployError (stateOf (handleSetPermissions_start h st)) = deployError st)
   \<and> (entered (handleTransfer_start h st) \<longrightarrow>
      deployPhase (stateOf (handleTransfer_start h st)) = deployPhase st
      \<and> safeResult (stateOf (handleTransfer_start h st)) = safeResult st
      \<and> deployError (stateOf (handleTransfer_start h st)) = deployError st
      \<and> permissionsPhase (stateOf (handleTransfer_start h st)) = permissionsPhase st
      \<and> permissionsResult (stateOf (handleTransfer_start h st)) = permissionsResult st
      \<and> permissionsError (stateOf (handleTransfer_start h st)) = permissionsError st
      \<and> transferBackPhase (stateOf (handleTransfer_start h st)) = transferBackPhase st
      \<and> transferBackResult (stateOf (handleTransfer_start h st)) = transferBackResult st
      \<and> transferBackError (stateOf (handleTransfer_start h st)) = transferBackError st)
   \<and> (entered (handleTransferBack_start h st) \<longrightarrow>
      deployPhase (stateOf (handleTransferBack_start h st)) = deployPhase st
      \<and> safeResult (stateOf (handleTransferBack_start h st)) = safeResult st
      \<and> deployError (stateOf (handleTransferBack_start h st)) = deployError st
      \<and> permissionsPhase (stateOf (handleTransferBack_start h st)) = permissionsPhase st
      \<and> permissionsResult (stateOf (handleTransferBack_start h st)) = permissionsResult st
      \<and> permissionsError (stateOf (handleTransferBack_start h st)) = permissionsError st
      \<and> transferPhase (stateOf (handleTransferBack_start h st)) = transferPhase st
      \<and> transferResult (stateOf (handleTransferBack_start h st)) = transferResult st
      \<and> transferError (stateOf (handleTransferBack_start h st)) = transferError st)"
proof -
  have a: "entered (handleDeploySafe_start h st) \<longrightarrow>
      permissionsPhase (stateOf (handleDeploySafe_start h st)) = idle
      \<and> permissionsResult (stateOf (handleDeploySafe_start h st)) = None
      \<and> permissionsError (stateOf (handleDeploySafe_start h st)) = None
      \<and> transferPhase (stateOf (handleDeploySafe_start h st)) = idle
      \<and> transferResult (stateOf (handleDeploySafe_start h st)) = None
      \<and> transferError (stateOf (handleDeploySafe_start h st)) = None
      \<and> transferBackPhase (stateOf (handleDeploySafe_start h st)) = idle
      \<and> transferBackResult (stateOf (handleDeploySafe_start h st)) = None
      \<and> transferBackError (stateOf (handleDeploySafe_start h st)) = None"
    by (simp add: handleDeploySafe_start_def entered_def stateOf_def split: option.splits)
  have b: "entered (handleSetPermissions_start h st) \<longrightarrow>
      transferPhase (stateOf (handleSetPermissions_start h st)) = idle
      \<and> transferResult (stateOf (handleSetPermissions_start h st)) = None
      \<and> transferError (stateOf (handleSetPermissions_start h st)) = None
      \<and> transferBackPhase (stateOf (handleSetPermissions_start h st)) = idle
      \<and> transferBackResult (stateOf (handleSetPermissions_start h st)) = None
      \<and> transferBackError (stateOf (handleSetPermissions_start h st)) = None
      \<and> deployPhase (stateOf (handleSetPermissions_start h st)) = deployPhase st
      \<and> safeResult (stateOf (handleSetPermissions_start h st)) = safeResult st
      \<and> deployError (stateOf (handleSetPermissions_start h st)) = deployError st"
    by (simp add: handleSetPermissions_start_def entered_def stateOf_def split: option.splits)
  have c: "entered (handleTransfer_start h st) \<longrightarrow>
      deployPhase (stateOf (handleTransfer_start h st)) = deployPhase st
      \<and> safeResult (stateOf (handleTransfer_start h st)) = safeResult st
      \<and> deployError (stateOf (handleTransfer_start h st)) = deployError st
      \<and> permissionsPhase (stateOf (handleTransfer_start h st)) = permissionsPhase st
      \<and> permissionsResult (stateOf (handleTransfer_start h st)) = permissionsResult st
      \<and> permissionsError (stateOf (handleTransfer_start h st)) = permissionsError st
      \<and> transferBackPhase (stateOf (handleTransfer_start h st)) = transferBackPhase st
      \<and> transferBackResult (stateOf (handleTransfer_start h st)) = transferBackResult st
      \<and> transferBackError (stateOf (handleTransfer_start h st)) = transferBackError st"
    by (simp add: handleTransfer_start_def entered_def stateOf_def Let_def
        split: option.splits)
  have d: "entered (handleTransferBack_start h st) \<longrightarrow>
      deployPhase (stateOf (handleTransferBack_start h st)) = deployPhase st
      \<and> safeResult (stateOf (handleTransferBack_start h st)) = safeResult st
      \<and> deployError (stateOf (handleTransferBack_start h st)) = deployError st
      \<and> permissionsPhase (stateOf (handleTransferBack_start h st)) = permissionsPhase st
      \<and> permissionsResult (stateOf (handleTransferBack_start h st)) = permissionsResult st
      \<and> permissionsError (stateOf (handleTransferBack_start h st)) = permissionsError st
      \<and> transferPhase (stateOf (handleTransferBack_start h st)) = transferPhase st
      \<and> transferResult (stateOf (handleTransferBack_start h st)) = transferResult st
      \<and> transferError (stateOf (handleTransferBack_start h st)) = transferError st"
    by (simp add: handleTransferBack_start_def entered_def stateOf_def Let_def
        split: option.splits)
  show ?thesis
    using a b c d by blast
qed

theorem entering_running_other_slots_witness:
  "transferPhase (stateOf (handleDeploySafe_start readyHooks fundedState)) = idle
   \<and> transferResult (stateOf (handleDeploySafe_start readyHooks fundedState)) = None
   \<and> transferPhase (stateOf (handleSetPermissions_start readyHooks fundedState)) = idle
   \<and> transferResult (stateOf (handleSetPermissions_start readyHooks fundedState)) = None
   \<and> safeResult (stateOf (handleSetPermissions_start readyHooks fundedState)) = Some sampleSafe
   \<and> safeResult (stateOf (handleTransfer_start readyHooks fundedState)) = Some sampleSafe
   \<and> deployPhase (stateOf (handleTransfer_start readyHooks fundedState)) = success"
proof -
  have a: "entered (handleDeploySafe_start readyHooks fundedState)"
    by (simp add: handleDeploySafe_start_def readyHooks_def entered_def)
  have b: "entered (handleSetPermissions_start readyHooks fundedState)"
    unfolding permissions_start_funded by (simp add: entered_def)
  have c: "entered (handleTransfer_start readyHooks fundedState)"
    using trim_sampleToken trim_samples(6,9)
    by (simp add: handleTransfer_start_def readyHooks_def fundedState_def fundingState_def
        deployedState_def initialState_def sampleSafe_def Let_def entered_def)
  have d: "safeResult fundedState = Some sampleSafe" "deployPhase fundedState = success"
    by (simp_all add: fundedState_def fundingState_def deployedState_def)
  show ?thesis
    using a b c d entering_running_other_slots [of readyHooks fundedState]
    by simp
qed

section \<open>The active-step marker in the event loop\<close>

lemma run_snoc: "run (evs @ [ev]) = fire (run evs) ev"
  by (simp add: run_def)

lemma canInteract_readyHooks: "canInteract readyHooks"
  by (simp add: canInteract_def readyHooks_def base_id_def)

lemma run_deployClicked:
  "run deployClicked =
     \<lparr> appState = initialState
         \<lparr>transferBackSafeAddress := sampleAccount, transferBackAddress := sampleToken,
          transferBackAmount := ''1000000'', activeStep := Some deploy,
          deployPhase := running\<rparr>,
       inFlight = [deploy] \<rparr>"
  using canInteract_readyHooks
  by (simp add: run_def deployClicked_def handleDeploySafe_start_def stateOf_def entered_def
      initialState_def readyHooks_def)

text \<open>
  C1, as stated, fails: while deploy is between entering \<open>running\<close> and its final
  phase, the trigger of transfer-out is enabled, and clicking it puts a second step in
  phase \<open>running\<close>.
\<close>

theorem one_running_step_counterexample:
  "deployPhase (appState (run deployClicked)) = running
   \<and> inFlight (run deployClicked) = [deploy]
   \<and> \<not> disabled readyHooks (appState (run deployClicked)) transferBack
   \<and> deployPhase (appState (run (deployClicked @ [Click readyHooks transferBack]))) = running
   \<and> transferBackPhase (appState (run (deployClicked @ [Click readyHooks transferBack])))
       = running
   \<and> inFlight (run (deployClicked @ [Click readyHooks transferBack])) = [transferBack, deploy]"
proof -
  have d: "\<not> disabled readyHooks (appState (run deployClicked)) transferBack"
    unfolding run_deployClicked using canInteract_readyHooks by simp
  have s: "handleTransferBack_start readyHooks (appState (run deployClicked)) =
      Entered ((appState (run deployClicked))
                 \<lparr>activeStep := Some transferBack, transferBackPhase := running,
                  transferBackError := None\<rparr>)
        (PublicClient 0, sampleAccount, sampleToken, ''1000000'')"
    unfolding run_deployClicked
    using trim_samples(3,6,8,9) trim_sampleToken
    by (simp add: handleTransferBack_start_def Let_def readyHooks_def)
  have r: "run (deployClicked @ [Click readyHooks transferBack]) =
      \<lparr> appState = (appState (run deployClicked))
                 \<lparr>activeStep := Some transferBack, transferBackPhase := running,
                  transferBackError := None\<rparr>,
        inFlight = [transferBack, deploy] \<rparr>"
    unfolding run_snoc using d
    by (simp add: s stateOf_def entered_def) (simp add: run_deployClicked)
  show ?thesis
    using d unfolding r by (simp add: run_deployClicked)
qed

lemma fire_active_step:
  assumes "\<And>k. activeStep (appState ui) = Some k \<Longrightarrow>
             phaseOf (appState ui) k = running \<and> k \<in> set (inFlight ui)"
    and "activeStep (appState (fire ui ev)) = Some k"
  shows "phaseOf (appState (fire ui ev)) k = running \<and> k \<in> set (inFlight (fire ui ev))"
proof (cases ev)
  case (Click h j)
  show ?thesis
  proof (cases "disabled h (appState ui) j")
    case True
    with Click assms show ?thesis by simp
  next
    case False
    show ?thesis
    proof (cases j)
      case deploy
      with Click False assms show ?thesis
        by (cases k; auto simp: handleDeploySafe_start_def stateOf_def entered_def
            split: option.splits if_splits)
    next
      case permissions
      with Click False assms show ?thesis
        by (cases k; auto simp: handleSetPermissions_start_def stateOf_def entered_def
            split: option.splits if_splits)
    next
      case transfer
      with Click False assms show ?thesis
        by (cases k; auto simp: handleTransfer_start_def stateOf_def entered_def Let_def
            split: option.splits if_splits)
    next
      case transferBack
      with Click False assms show ?thesis
        by (cases k; auto simp: handleTransferBack_start_def stateOf_def entered_def Let_def
            split: option.splits if_splits)
    qed
  qed
next
  case (SettleDeploy r)
  with assms show ?thesis
    by (cases k; auto simp: settle_def handleDeploySafe_finish_def split: if_splits sum.splits)
next
  case (SettlePermissions r)
  with assms show ?thesis
    by (cases k; auto simp: settle_def handleSetPermissions_finish_def split: if_splits sum.splits)
next
  case (SettleTransfer r)
  with assms show ?thesis
    by (cases k; auto simp: settle_def handleTransfer_finish_def split: if_splits sum.splits)
next
  case (SettleTransferBack r)
  with assms show ?thesis
    by (cases k; auto simp: settle_def handleTransferBack_finish_def split: if_splits sum.splits)
next
  case (ChangeTransferAddress v)
  with assms show ?thesis by (cases k) auto
next
  case (ChangeTransferAmount v)
  with assms show ?thesis by (cases k) auto
next
  case (ChangeTransferBackSafeAddress v)
  with assms show ?thesis by (cases k) auto
next
  case (ChangeTransferBackAddress v)
  with assms show ?thesis by (cases k) auto
next
  case (ChangeTransferBackAmount v)
  with assms show ?thesis by (cases k) auto
qed

lemma run_active_step:
  "activeStep (appState (run evs)) = Some k \<Longrightarrow>
     phaseOf (appState (run evs)) k = running \<and> k \<in> set (inFlight (run evs))"
proof (induction evs arbitrary: k rule: rev_induct)
  case Nil
  then show ?case by (simp add: run_def initialState_def)
next
  case (snoc ev evs)
  show ?case
    unfolding run_snoc
    by (rule fire_active_step [OF snoc.IH]) (use snoc.prems in \<open>simp_all add: run_snoc\<close>)
qed

lemma fire_running_in_flight:
  assumes "deployPhase (appState ui) = running \<longrightarrow> deploy \<in> set (inFlight ui)"
    and "permissionsPhase (appState ui) = running \<longrightarrow> permissions \<in> set (inFlight ui)"
    and "transferPhase (appState ui) = running \<longrightarrow> transfer \<in> set (inFlight ui)"
    and "transferBackPhase (appState ui) = running \<longrightarrow> transferBack \<in> set (inFlight ui)"
  shows "(deployPhase (appState (fire ui ev)) = running \<longrightarrow>
            deploy \<in> set (inFlight (fire ui ev)))
    \<and> (permissionsPhase (appState (fire ui ev)) = running \<longrightarrow>
            permissions \<in> set (inFlight (fire ui ev)))
    \<and> (transferPhase (appState (fire ui ev)) = running \<longrightarrow>
            transfer \<in> set (inFlight (fire ui ev)))
    \<and> (transferBackPhase (appState (fire ui ev)) = running \<longrightarrow>
            transferBack \<in> set (inFlight (fire ui ev)))"
proof (cases ev)
  case (Click h j)
  show ?thesis
  proof (cases "disabled h (appState ui) j")
    case True
    with Click assms show ?thesis by simp
  next
    case False
    show ?thesis
    proof (cases j)
      case deploy
      with Click False assms show ?thesis
        by (simp add: handleDeploySafe_start_def stateOf_def entered_def split: option.splits)
    next
      case permissions
      with Click False assms show ?thesis
        by (simp add: handleSetPermissions_start_def stateOf_def entered_def
            split: option.splits)
    next
      case transfer
      with Click False assms show ?thesis
        by (simp add: handleTransfer_start_def stateOf_def entered_def Let_def
            split: option.splits)
    next
      case transferBack
      with Click False assms show ?thesis
        by (simp add: handleTransferBack_start_def stateOf_def entered_def Let_def
            split: option.splits)
    qed
  qed
next
  case (SettleDeploy r)
  with assms show ?thesis
    by (auto simp: settle_def handleDeploySafe_finish_def split: sum.splits)
next
  case (SettlePermissions r)
  with assms show ?thesis
    by (auto simp: settle_def handleSetPermissions_finish_def split: sum.splits)
next
  case (SettleTransfer r)
  with assms show ?thesis
    by (auto simp: settle_def handleTransfer_finish_def split: sum.splits)
next
  case (SettleTransferBack r)
  with assms show ?thesis
    by (auto simp: settle_def handleTransferBack_finish_def split: sum.splits)
next
  case (ChangeTransferAddress v)
  with assms show ?thesis by simp
next
  case (ChangeTransferAmount v)
  with assms show ?thesis by simp
next
  case (ChangeTransferBackSafeAddress v)
  with assms show ?thesis by simp
next
  case (ChangeTransferBackAddress v)
  with assms show ?thesis by simp
next
  case (ChangeTransferBackAmount v)
  with assms show ?thesis by simp
qed

lemma run_running_in_flight_all:
  "(deployPhase (appState (run evs)) = running \<longrightarrow> deploy \<in> set (inFlight (run evs)))
   \<and> (permissionsPhase (appState (run evs)) = running \<longrightarrow>
         permissions \<in> set (inFlight (run evs)))
   \<and> (transferPhase (appState (run evs)) = running \<longrightarrow>
         transfer \<in> set (inFlight (run evs)))
   \<and> (transferBackPhase (appState (run evs)) = running \<longrightarrow>
         transferBack \<in> set (inFlight (run evs)))"
proof (induction evs rule: rev_induct)
  case Nil
  then show ?case by (simp add: run_def initialState_def)
next
  case (snoc ev evs)
  then show ?case
    unfolding run_snoc by (intro fire_running_in_flight) simp_all
qed

lemma run_running_in_flight:
  "phaseOf (appState (run evs)) k = running \<Longrightarrow> k \<in> set (inFlight (run evs))"
  using run_running_in_flight_all [of evs] by (cases k) simp_all

text \<open>
  C1, amended. In every state the component reaches, the active-step marker names at
  most one step, and a step it names is in phase \<open>running\<close>, has its handler still in
  flight and has its own trigger disabled. A step with no handler in flight is not in
  phase \<open>running\<close>, and its trigger is disabled exactly when the component cannot
  interact, or when it is set-permissions or transfer-in and no deploy result is stored,
  whatever other steps are running. So different steps are not serialized, and two of
  them can be in phase \<open>running\<close> at once. Nothing is said here about the trigger of a
  step whose handler is in flight while the marker does not name it.
\<close>

theorem active_step_is_running:
  "(activeStep (appState (run evs)) = Some k \<longrightarrow>
      phaseOf (appState (run evs)) k = running
      \<and> k \<in> set (inFlight (run evs))
      \<and> disabled h (appState (run evs)) k)
   \<and> (j \<notin> set (inFlight (run evs)) \<longrightarrow>
      phaseOf (appState (run evs)) j \<noteq> running
      \<and> disabled h (appState (run evs)) j =
          (\<not> canInteract h
           \<or> (j \<in> {permissions, transfer} \<and> safeResult (appState (run evs)) = None)))"
proof (intro conjI impI)
  assume a: "activeStep (appState (run evs)) = Some k"
  show "phaseOf (appState (run evs)) k = running" and "k \<in> set (inFlight (run evs))"
    using run_active_step [OF a] by simp_all
  show "disabled h (appState (run evs)) k"
    using a by (cases k) simp_all
next
  assume b: "j \<notin> set (inFlight (run evs))"
  show "phaseOf (appState (run evs)) j \<noteq> running"
    using b run_running_in_flight [of evs j] by blast
  have "activeStep (appState (run evs)) \<noteq> Some j"
    using b run_active_step [of evs j] by blast
  then show "disabled h (appState (run evs)) j =
          (\<not> canInteract h
           \<or> (j \<in> {permissions, transfer} \<and> safeResult (appState (run evs)) = None))"
    by (cases j) auto
qed

theorem active_step_is_running_witness:
  "activeStep (appState (run deployClicked)) = Some deploy
   \<and> phaseOf (appState (run deployClicked)) deploy = running
   \<and> deploy \<in> set (inFlight (run deployClicked))
   \<and> disabled readyHooks (appState (run deployClicked)) deploy
   \<and> transferBack \<notin> set (inFlight (run deployClicked))
   \<and> phaseOf (appState (run deployClicked)) transferBack \<noteq> running
   \<and> disabled readyHooks (appState (run deployClicked)) transferBack = False
   \<and> permissions \<notin> set (inFlight (run deployClicked))
   \<and> disabled readyHooks (appState (run deployClicked)) permissions = True"
proof -
  have a: "activeStep (appState (run deployClicked)) = Some deploy"
    "safeResult (appState (run deployClicked)) = None"
    "inFlight (run deployClicked) = [deploy]"
    unfolding run_deployClicked by (simp_all add: initialState_def)
  show ?thesis
    using a canInteract_readyHooks
      active_step_is_running [of deployClicked deploy readyHooks transferBack]
      active_step_is_running [of deployClicked deploy readyHooks permissions]
    by simp
qed

section \<open>The proxy's readContract\<close>

lemma startsWith_iff: "startsWith s p \<longleftrightarrow> (\<exists>q. s = p @ q)"
proof
  assume "startsWith s p"
  then have "s = p @ drop (length p) s"
    by (metis append_take_drop_id startsWith_def)
  then show "\<exists>q. s = p @ q" ..
next
  assume "\<exists>q. s = p @ q"
  then show "startsWith s p"
    by (auto simp: startsWith_def)
qed

lemma str_includes_iff: "str_includes s sub \<longleftrightarrow> (\<exists>p q. s = p @ sub @ q)"
proof (induction s)
  case Nil
  then show ?case by auto
next
  case (Cons c cs)
  show ?case
  proof
    assume "str_includes (c # cs) sub"
    then consider "startsWith (c # cs) sub" | "str_includes cs sub" by auto
    then show "\<exists>p q. c # cs = p @ sub @ q"
    proof cases
      case 1
      then obtain q where "c # cs = sub @ q" by (auto simp: startsWith_iff)
      then have "c # cs = [] @ sub @ q" by simp
      then show ?thesis by blast
    next
      case 2
      then obtain p q where "cs = p @ sub @ q" using Cons.IH by auto
      then have "c # cs = (c # p) @ sub @ q" by simp
      then show ?thesis by blast
    qed
  next
    assume "\<exists>p q. c # cs = p @ sub @ q"
    then obtain p q where eq: "c # cs = p @ sub @ q" by auto
    show "str_includes (c # cs) sub"
    proof (cases p)
      case Nil
      with eq have "startsWith (c # cs) sub" by (auto simp: startsWith_iff)
      then show ?thesis by simp
    next
      case (Cons a p')
      with eq have "cs = p' @ sub @ q" by simp
      then have "str_includes cs sub" using Cons.IH by auto
      then show ?thesis by simp
    qed
  qed
qed

text \<open>
  C9, as stated, fails for a thrown value that is no \<^verbatim>\<open>Error\<close>: such a value has no
  \<^verbatim>\<open>message\<close>, yet a thrown string that contains \<^verbatim>\<open>returned no data\<close> is not rethrown
  as it was; the proxy replaces it by a new \<^verbatim>\<open>Error\<close>.
\<close>

theorem thrown_string_rewritten_counterexample:
  "proxy_readContract (\<lambda>_::unit. (Inl (NonError ''returned no data'') :: nat promise)) ()
     = Inl (ErrorObj ''ContractFunctionZeroDataError''
              ''ContractFunctionZeroDataError: returned no data'')
   \<and> proxy_readContract (\<lambda>_::unit. (Inl (NonError ''returned no data'') :: nat promise)) ()
     \<noteq> Inl (NonError ''returned no data'')"
  by (simp add: proxy_readContract_def messageOf_def startsWith_def)

text \<open>
  C9, amended. The \<^verbatim>\<open>readContract\<close> of the proxied network client, for every target
  and arguments: a value the target resolves to is returned as it is. A rejection with
  an \<^verbatim>\<open>Error\<close> whose message contains \<^verbatim>\<open>returned no data\<close>, and a rejection with any
  other thrown value whose string conversion \<^verbatim>\<open>String(error)\<close> contains it, is
  replaced by an \<^verbatim>\<open>Error\<close> named \<^verbatim>\<open>ContractFunctionZeroDataError\<close> whose message is
  that name, a colon, a space and the original message (or string conversion). Every
  other rejection, \<^verbatim>\<open>Error\<close> or not, is rethrown as it was.
\<close>

theorem proxy_readContract_cases:
  "(target args = Inr v \<longrightarrow> proxy_readContract target args = Inr v)
   \<and> (target args = Inl (ErrorObj n m) \<and> (\<exists>p q. m = p @ ''returned no data'' @ q) \<longrightarrow>
        proxy_readContract target args =
          Inl (ErrorObj ''ContractFunctionZeroDataError''
                 (''ContractFunctionZeroDataError: '' @ m)))
   \<and> (target args = Inl (ErrorObj n m) \<and> \<not> (\<exists>p q. m = p @ ''returned no data'' @ q) \<longrightarrow>
        proxy_readContract target args = Inl (ErrorObj n m))
   \<and> (target args = Inl (NonError s) \<and> (\<exists>p q. s = p @ ''returned no data'' @ q) \<longrightarrow>
        proxy_readContract target args =
          Inl (ErrorObj ''ContractFunctionZeroDataError''
                 (''ContractFunctionZeroDataError: '' @ s)))
   \<and> (target args = Inl (NonError s) \<and> \<not> (\<exists>p q. s = p @ ''returned no data'' @ q) \<longrightarrow>
        proxy_readContract target args = Inl (NonError s))"
  unfolding str_includes_iff [symmetric]
  by (simp add: proxy_readContract_def messageOf_def)

theorem proxy_readContract_cases_witness:
  "proxy_readContract (\<lambda>_::unit. Inr (5::nat)) () = Inr 5
   \<and> proxy_readContract
        (\<lambda>_::unit. (Inl (ErrorObj ''Error'' ''call returned no data (0x)'') :: nat promise)) ()
      = Inl (ErrorObj ''ContractFunctionZeroDataError''
               ''ContractFunctionZeroDataError: call returned no data (0x)'')
   \<and> proxy_readContract
        (\<lambda>_::unit. (Inl (ErrorObj ''HttpRequestError'' ''timeout'') :: nat promise)) ()
      = Inl (ErrorObj ''HttpRequestError'' ''timeout'')
   \<and> proxy_readContract
        (\<lambda>_::unit. (Inl (NonError ''call returned no data (0x)'') :: nat promise)) ()
      = Inl (ErrorObj ''ContractFunctionZeroDataError''
               ''ContractFunctionZeroDataError: call returned no data (0x)'')
   \<and> proxy_readContract (\<lambda>_::unit. (Inl (NonError ''timeout'') :: nat promise)) ()
      = Inl (NonError ''timeout'')"
proof -
  have a: "\<exists>p q. ''call returned no data (0x)'' = p @ ''returned no data'' @ q"
    unfolding str_includes_iff [symmetric] by (simp add: startsWith_def)
  have b: "\<not> (\<exists>p q. ''timeout'' = p @ ''returned no data'' @ q)"
    unfolding str_includes_iff [symmetric] by (simp add: startsWith_def)
  show ?thesis
    using a b
      proxy_readContract_cases [of "\<lambda>_::unit. Inr (5::nat)" "()" 5]
      proxy_readContract_cases
        [where target = "\<lambda>_::unit. (Inl (ErrorObj ''Error'' ''call returned no data (0x)'') :: nat promise)"
           and args = "()" and n = "''Error''" and m = "''call returned no data (0x)''"]
      proxy_readContract_cases
        [where target = "\<lambda>_::unit. (Inl (ErrorObj ''HttpRequestError'' ''timeout'') :: nat promise)"
           and args = "()" and n = "''HttpRequestError''" and m = "''timeout''"]
      proxy_readContract_cases
        [where target = "\<lambda>_::unit. (Inl (NonError ''call returned no data (0x)'') :: nat promise)"
           and args = "()" and s = "''call returned no data (0x)''"]
      proxy_readContract_cases
        [where target = "\<lambda>_::unit. (Inl (NonError ''timeout'') :: nat promise)"
           and args = "()" and s = "''timeout''"]
    by simp
qed

section \<open>The polyfill\<close>

text \<open>
  C10. After the polyfill, \<^verbatim>\<open>process.env.RPC_URL\<close> and \<^verbatim>\<open>process.env.PRIVATE_KEY\<close>
  are strings: the value \<^verbatim>\<open>process.env\<close> already had when it had one, else the Vite
  variable (\<^verbatim>\<open>VITE_SAFE_RPC_URL\<close>, \<^verbatim>\<open>VITE_SAFE_PRIVATE_KEY\<close>) when it is set, else
  the empty string; every other key of \<^verbatim>\<open>process.env\<close> is as it was.
\<close>

theorem process_env_polyfill_spec:
  "env (process_env_polyfill meta p) ''RPC_URL'' =
     Some (Some (case readProperty (env (orElse p \<lparr>env = Map.empty\<rparr>)) ''RPC_URL'' of
                   Some v \<Rightarrow> v
                 | None \<Rightarrow> (case VITE_SAFE_RPC_URL meta of Some v \<Rightarrow> v | None \<Rightarrow> [])))
   \<and> env (process_env_polyfill meta p) ''PRIVATE_KEY'' =
     Some (Some (case readProperty (env (orElse p \<lparr>env = Map.empty\<rparr>)) ''PRIVATE_KEY'' of
                   Some v \<Rightarrow> v
                 | None \<Rightarrow> (case VITE_SAFE_PRIVATE_KEY meta of Some v \<Rightarrow> v | None \<Rightarrow> [])))
   \<and> (\<forall>k. k \<noteq> ''RPC_URL'' \<and> k \<noteq> ''PRIVATE_KEY'' \<longrightarrow>
          env (process_env_polyfill meta p) k = env (orElse p \<lparr>env = Map.empty\<rparr>) k)"
  by (simp add: process_env_polyfill_def Let_def orElse_def split: option.splits)

theorem process_env_polyfill_spec_witness:
  "env (process_env_polyfill sampleMeta (Some sampleProcess)) ''RPC_URL''
     = Some (Some ''https://rpc.example'')
   \<and> env (process_env_polyfill sampleMeta (Some sampleProcess)) ''PRIVATE_KEY''
     = Some (Some ''0xkey'')
   \<and> env (process_env_polyfill sampleMeta (Some sampleProcess)) ''HOME'' = Some (Some ''/root'')
   \<and> env (process_env_polyfill sampleMeta None) ''PRIVATE_KEY'' = Some (Some [])"
proof -
  have "''HOME'' \<noteq> ''RPC_URL'' \<and> ''HOME'' \<noteq> ''PRIVATE_KEY''" by simp
  then show ?thesis
    using process_env_polyfill_spec [of sampleMeta "Some sampleProcess"]
      process_env_polyfill_spec [of sampleMeta None]
    by (simp add: sampleMeta_def sampleProcess_def orElse_def readProperty_def)
qed

end
